theory Spec2Isabelle
  imports Main
begin

section \<open>Tables: normalizeTable_ and the sheet-data conversions\<close>

text \<open>
  Cells are strings. A table element that is not an array is \<open>NotRow\<close>; a table that is
  not an array is \<open>None\<close>.
\<close>

datatype row_val = Row "string list" | NotRow

record normalized =
  rows :: nat
  cols :: nat
  vals :: "string list list"

fun row_cells :: "row_val \<Rightarrow> string list" where
  "row_cells (Row cs) = cs"
| "row_cells NotRow = []"

text \<open>The \<open>forEach\<close> that finds the longest row, one step of it.\<close>

fun widen :: "row_val \<Rightarrow> nat \<Rightarrow> nat" where
  "widen (Row cs) c = (if length cs > c then length cs else c)"
| "widen NotRow c = c"

definition longest :: "row_val list \<Rightarrow> nat" where
  "longest table = fold widen table 0"

text \<open>\<open>row.slice(0, width)\<close> followed by the \<open>while (safe.length < width) safe.push('')\<close> loop.\<close>

definition pad_row :: "nat \<Rightarrow> string list \<Rightarrow> string list" where
  "pad_row width cs = take width cs @ replicate (width - length (take width cs)) ''''"

definition normalizeTable :: "row_val list option \<Rightarrow> normalized" where
  "normalizeTable table =
     (case table of
        None \<Rightarrow> \<lparr>rows = 0, cols = 0, vals = []\<rparr>
      | Some [] \<Rightarrow> \<lparr>rows = 0, cols = 0, vals = []\<rparr>
      | Some t \<Rightarrow>
          (let width = max 1 (longest t);
               values = map (\<lambda>r. pad_row width (row_cells r)) t
           in \<lparr>rows = length values, cols = width, vals = values\<rparr>))"

subsection \<open>convertEntitiesToSheetData\<close>

text \<open>
  A JSON value of an entity field: null, undefined, a primitive (kept as its text) or an
  object (kept as the text \<open>JSON.stringify\<close> gives). An entity is its list of fields in
  key order; \<open>Object.keys\<close> is the list of keys.
\<close>

datatype jsv = JNull | JUndefined | JPrim string | JObject string

type_synonym entity = "(string \<times> jsv) list"

record sheet_data =
  sd_data :: "string list list"
  sd_rows :: nat
  sd_cols :: nat

fun entity_cell :: "jsv option \<Rightarrow> string" where
  "entity_cell None = ''''"
| "entity_cell (Some JNull) = ''''"
| "entity_cell (Some JUndefined) = ''''"
| "entity_cell (Some (JObject txt)) = txt"
| "entity_cell (Some (JPrim v)) = v"

definition entity_row :: "string list \<Rightarrow> entity \<Rightarrow> string list" where
  "entity_row headers e = map (\<lambda>h. entity_cell (map_of e h)) headers"

definition convertEntitiesToSheetData :: "entity list option \<Rightarrow> sheet_data" where
  "convertEntitiesToSheetData entities =
     (case entities of
        None \<Rightarrow> \<lparr>sd_data = [], sd_rows = 0, sd_cols = 0\<rparr>
      | Some [] \<Rightarrow> \<lparr>sd_data = [], sd_rows = 0, sd_cols = 0\<rparr>
      | Some (e0 # es) \<Rightarrow>
          (let headers = map fst e0;
               rs = headers # map (entity_row headers) (e0 # es)
           in \<lparr>sd_data = rs, sd_rows = length rs, sd_cols = length headers\<rparr>))"

subsection \<open>convertReportToSheetData and processReportRows\<close>

text \<open>
  A report row of the payload: its \<open>type\<close>, \<open>Header.ColData\<close>, \<open>Rows.Row\<close>,
  \<open>Summary.ColData\<close> and \<open>ColData\<close>. A \<open>ColData\<close> list is kept as the list of
  \<open>col.value || ''\<close>; an absent one is \<open>None\<close>. An absent \<open>Rows\<close> is the empty list.
\<close>

datatype report_row =
  ReportRow (rtype: string) (rheader: "string list option") (rsub: "report_row list")
    (rsummary: "string list option") (rcoldata: "string list option")

record column =
  ColTitle :: string
  ColType :: string

record report =
  Columns :: "column list option"
  Rows :: "report_row list option"

fun opt_row :: "string list option \<Rightarrow> string list list" where
  "opt_row None = []"
| "opt_row (Some cs) = [cs]"

text \<open>
  The rows one report row appends to \<open>outputRows\<close>, at nesting depth \<open>level\<close>. The
  indentation cell \<open>new Array(level).fill('').join('')\<close> is the empty string.
\<close>

fun processReportRow :: "nat \<Rightarrow> report_row \<Rightarrow> string list list" where
  "processReportRow level (ReportRow ty hdr sub summ cd) =
     (if ty = ''Section'' then
        (case hdr of None \<Rightarrow> [] | Some h \<Rightarrow> (if h = [] then [] else [h]))
        @ concat (map (processReportRow (Suc level)) sub)
        @ opt_row summ
      else if ty = ''Data'' \<and> cd \<noteq> None then
        (case cd of None \<Rightarrow> []
         | Some rowData \<Rightarrow> [(if level > 0 then [''''] else []) @ rowData])
      else if ty = ''Summary'' then opt_row summ
      else [])"

definition processReportRows :: "report_row list \<Rightarrow> nat \<Rightarrow> string list list" where
  "processReportRows reportRows level = concat (map (processReportRow level) reportRows)"

definition column_title :: "column \<Rightarrow> string" where
  "column_title c =
     (if ColTitle c \<noteq> '''' then ColTitle c
      else if ColType c \<noteq> '''' then ColType c else ''Column'')"

definition convertReportToSheetData :: "report option \<Rightarrow> sheet_data" where
  "convertReportToSheetData reportData =
     (case reportData of
        None \<Rightarrow> \<lparr>sd_data = [], sd_rows = 0, sd_cols = 0\<rparr>
      | Some r \<Rightarrow>
          (let rs = (case Columns r of None \<Rightarrow> [] | Some cs \<Rightarrow> [map column_title cs])
                    @ (case Rows r of None \<Rightarrow> [] | Some rr \<Rightarrow> processReportRows rr 0)
           in \<lparr>sd_data = rs, sd_rows = length rs,
               sd_cols = (case rs of [] \<Rightarrow> 0 | r0 # _ \<Rightarrow> length r0)\<rparr>))"

definition rectangular :: "string list list \<Rightarrow> bool" where
  "rectangular t = (case t of [] \<Rightarrow> True | r0 # rs \<Rightarrow> list_all (\<lambda>r. length r = length r0) rs)"

text \<open>
  A flat report: every element of \<open>Rows.Row\<close> is a top-level \<open>Data\<close> row, and its
  \<open>ColData\<close>, when present, has one cell per column of \<open>Columns.Column\<close>.
\<close>

definition flat_row :: "nat \<Rightarrow> report_row \<Rightarrow> bool" where
  "flat_row n r =
     (rtype r = ''Data'' \<and> (case rcoldata r of None \<Rightarrow> True | Some cd \<Rightarrow> length cd = n))"

definition flat_report :: "nat \<Rightarrow> report \<Rightarrow> bool" where
  "flat_report n rep =
     ((case Columns rep of None \<Rightarrow> False | Some cs \<Rightarrow> length cs = n) \<and>
      (case Rows rep of None \<Rightarrow> True | Some rr \<Rightarrow> list_all (flat_row n) rr))"

section \<open>Query parser\<close>

text \<open>
  Strings are byte lists. \<open>\s\<close> and \<open>trim()\<close> are read on the ASCII white-space characters
  and the no-break space, \<open>\w\<close> on
  \<open>[A-Za-z0-9_]\<close>; the \<open>i\<close> flag compares letters after lower-casing.
\<close>

definition is_space :: "char \<Rightarrow> bool" where
  "is_space c =
     (c \<in> set [CHR '' '', CHR 0x09, CHR 0x0A, CHR 0x0B, CHR 0x0C, CHR 0x0D, CHR 0xA0])"

definition is_upper :: "char \<Rightarrow> bool" where
  "is_upper c = (65 \<le> (of_char c :: nat) \<and> (of_char c :: nat) \<le> 90)"

definition is_lower :: "char \<Rightarrow> bool" where
  "is_lower c = (97 \<le> (of_char c :: nat) \<and> (of_char c :: nat) \<le> 122)"

definition is_digit :: "char \<Rightarrow> bool" where
  "is_digit c = (48 \<le> (of_char c :: nat) \<and> (of_char c :: nat) \<le> 57)"

definition is_word :: "char \<Rightarrow> bool" where
  "is_word c = (is_upper c \<or> is_lower c \<or> is_digit c \<or> c = CHR ''_'')"

definition to_lower :: "char \<Rightarrow> char" where
  "to_lower c = (if is_upper c then char_of ((of_char c :: nat) + 32) else c)"

definition to_upper :: "char \<Rightarrow> char" where
  "to_upper c = (if is_lower c then char_of ((of_char c :: nat) - 32) else c)"

definition trim :: "string \<Rightarrow> string" where
  "trim s = rev (dropWhile is_space (rev (dropWhile is_space s)))"

text \<open>\<open>replace(/\s+/g, ' ')\<close>: every run of white space becomes one blank.\<close>

fun squeeze_from :: "bool \<Rightarrow> string \<Rightarrow> string" where
  "squeeze_from after_space [] = []"
| "squeeze_from after_space (c # cs) =
     (if is_space c then
        (if after_space then squeeze_from True cs else CHR '' '' # squeeze_from True cs)
      else c # squeeze_from False cs)"

definition squeeze :: "string \<Rightarrow> string" where
  "squeeze s = squeeze_from False s"

text \<open>\<open>p\<close>, given in lower case, is a prefix of \<open>s\<close> up to letter case.\<close>

definition prefix_ci :: "string \<Rightarrow> string \<Rightarrow> bool" where
  "prefix_ci p s = (length p \<le> length s \<and> map to_lower (take (length p) s) = p)"

text \<open>
  The lazy group of \<open>/^SELECT\s+(.*?)\s+FROM/i\<close>, read after \<open>SELECT\s+\<close>: the shortest
  text followed by white space and \<open>FROM\<close>.
\<close>

fun lazy_until_from :: "string \<Rightarrow> string \<Rightarrow> string option" where
  "lazy_until_from acc [] = None"
| "lazy_until_from acc (c # cs) =
     (if is_space c \<and> prefix_ci ''from'' (dropWhile is_space cs) then Some (rev acc)
      else lazy_until_from (c # acc) cs)"

definition select_match :: "string \<Rightarrow> string option" where
  "select_match n =
     (if prefix_ci ''select'' n then
        (case drop 6 n of
           [] \<Rightarrow> None
         | c # cs \<Rightarrow> if is_space c then lazy_until_from [] (dropWhile is_space (c # cs)) else None)
      else None)"

text \<open>\<open>/FROM\s+(\w+)/i\<close>: the leftmost \<open>FROM\<close> that white space and a word follow.\<close>

fun from_match :: "string \<Rightarrow> string option" where
  "from_match [] = None"
| "from_match (c # cs) =
     (if prefix_ci ''from'' (c # cs) then
        (case drop 4 (c # cs) of
           [] \<Rightarrow> from_match cs
         | d # ds \<Rightarrow>
             if is_space d \<and> takeWhile is_word (dropWhile is_space (d # ds)) \<noteq> []
             then Some (takeWhile is_word (dropWhile is_space (d # ds)))
             else from_match cs)
      else from_match cs)"

definition QUERYABLE_ENTITIES :: "string list" where
  "QUERYABLE_ENTITIES =
     [''Account'', ''Bill'', ''BillPayment'', ''Budget'', ''Class'', ''CreditMemo'',
      ''Customer'', ''Department'', ''Deposit'', ''Employee'', ''Estimate'', ''Invoice'',
      ''Item'', ''JournalEntry'', ''Payment'', ''PaymentMethod'', ''Purchase'',
      ''PurchaseOrder'', ''RefundReceipt'', ''SalesReceipt'', ''TaxCode'', ''TaxRate'',
      ''Term'', ''TimeActivity'', ''Transfer'', ''Vendor'', ''VendorCredit'']"

text \<open>\<open>join(', ')\<close>\<close>

fun join_comma :: "string list \<Rightarrow> string" where
  "join_comma [] = []"
| "join_comma [x] = x"
| "join_comma (x # y # ys) = x @ '', '' @ join_comma (y # ys)"

text \<open>
  The result of \<open>parseQuery\<close>. The optional captures (\<open>where\<close>, \<open>orderBy\<close>,
  \<open>startPosition\<close>, \<open>maxResults\<close>) are read after \<open>valid\<close> is decided and cannot fail;
  they are not part of this record.
\<close>

record parsed_query =
  pq_valid :: bool
  pq_error :: string
  pq_select :: string
  pq_from :: string

definition invalid_query :: "string \<Rightarrow> parsed_query" where
  "invalid_query msg = \<lparr>pq_valid = False, pq_error = msg, pq_select = '''', pq_from = ''''\<rparr>"

text \<open>\<open>parseQuery\<close> of the dataset build (the file that also holds \<open>SUPPORTED_REPORTS\<close>).\<close>

definition parseQuery :: "string \<Rightarrow> parsed_query" where
  "parseQuery query =
     (let normalizedQuery = squeeze (trim query) in
      case select_match normalizedQuery of
        None \<Rightarrow> invalid_query ''Missing SELECT clause''
      | Some sel \<Rightarrow>
          (case from_match normalizedQuery of
             None \<Rightarrow> invalid_query ''Missing FROM clause''
           | Some frm \<Rightarrow>
               if frm \<notin> set QUERYABLE_ENTITIES
               then invalid_query (''Invalid entity: '' @ frm @ ''. Supported entities: ''
                      @ join_comma QUERYABLE_ENTITIES)
               else \<lparr>pq_valid = True, pq_error = '''', pq_select = trim sel, pq_from = frm\<rparr>))"

text \<open>
  \<open>parseQuery\<close> of the paginating client file, whose allow-list is the constant
  \<open>QBO_QUERYABLE_ENTITIES\<close> (the same 27 names). Its select pattern is
  \<open>/^select\s+(.+?)\s+from\s+/i\<close>: a non-empty lazy group, and white space after \<open>from\<close>.
\<close>

fun lazy_until_from_sp :: "string \<Rightarrow> string \<Rightarrow> string option" where
  "lazy_until_from_sp acc [] = None"
| "lazy_until_from_sp acc (c # cs) =
     (if acc \<noteq> [] \<and> is_space c \<and> prefix_ci ''from'' (dropWhile is_space cs)
         \<and> (case drop 4 (dropWhile is_space cs) of [] \<Rightarrow> False | d # _ \<Rightarrow> is_space d)
      then Some (rev acc)
      else lazy_until_from_sp (c # acc) cs)"

definition select_match_paged :: "string \<Rightarrow> string option" where
  "select_match_paged n =
     (if prefix_ci ''select'' n then
        (case drop 6 n of
           [] \<Rightarrow> None
         | c # cs \<Rightarrow>
             if is_space c then lazy_until_from_sp [] (dropWhile is_space (c # cs)) else None)
      else None)"

definition parseQuery_paged :: "string \<Rightarrow> parsed_query" where
  "parseQuery_paged query =
     (let normalized = squeeze (trim query) in
      case (select_match_paged normalized, from_match normalized) of
        (Some sel, Some frm) \<Rightarrow>
          \<lparr>pq_valid = True, pq_error = '''', pq_select = sel, pq_from = frm\<rparr>
      | _ \<Rightarrow> invalid_query ''Query must include SELECT and FROM clauses'')"

section \<open>Data model of the dataset engine\<close>

record schedule =
  sc_enabled :: bool
  sc_freq :: string
  sc_timeOfDay :: string

text \<open>
  A range of a sheet: the A1 text of one cell, or the block of \<open>rows \<times> cols\<close> cells whose
  top-left cell is the anchor (what \<open>getRange(row, col, numRows, numCols)\<close> returns;
  \<open>getA1Notation\<close> is kept in this structured form).
\<close>

datatype range_ref = Cell string | Block string nat nat

record last_write =
  lw_rows :: nat
  lw_cols :: nat
  lw_sheetId :: string
  lw_sheetName :: string
  lw_rangeA1 :: "range_ref option"
  lw_schemaHash :: string

text \<open>A missing string field of a target is the empty string; \<open>allowResize\<close> that is not a boolean is \<open>None\<close>.\<close>

record target =
  tg_sheetId :: string
  tg_sheetName :: string
  tg_anchorA1 :: string
  tg_allowResize :: "bool option"
  tg_namedRange :: string

record params =
  pr_reportType :: string
  pr_query :: string

text \<open>The dataset record; timestamps and the pagination block are left out.\<close>

record dataset =
  ds_id :: string
  ds_type :: string
  ds_name :: string
  ds_params :: "params option"
  ds_target :: "target option"
  ds_schedule :: "schedule option"
  ds_lastWrite :: "last_write option"
  ds_version :: nat

datatype job_status = Running | Completed | Failed

record target_updates =
  tu_sheetId :: "string option"
  tu_sheetName :: "string option"
  tu_anchorA1 :: "string option"
  tu_allowResize :: "bool option"
  tu_namedRange :: "string option"

record run_result =
  rr_lastWrite :: last_write
  rr_targetUpdates :: "target_updates option"

record job =
  jb_id :: string
  jb_datasetId :: string
  jb_status :: job_status
  jb_progress :: nat
  jb_message :: string
  jb_error :: "string option"
  jb_result :: "run_result option"

record sheet =
  sh_id :: nat
  sh_name :: string

datatype lock_holder = Free | Self | Another

text \<open>
  What a run does to the outside: log lines, writes of a job record, and changes of the
  spreadsheet. They are appended to \<open>w_events\<close> in the order they happen.
\<close>

datatype event =
    Log string
  | ConsoleError string
  | ConsoleWarn string
  | JobStored string job_status nat
  | InsertSheet string
  | ClearContent nat range_ref
  | SetValues nat range_ref "string list list"
  | FormatHeader nat range_ref
  | AutoResizeColumn nat string nat
  | DeleteTrigger string
  | CreateTrigger string string

fun is_cell_mutation :: "event \<Rightarrow> bool" where
  "is_cell_mutation (ClearContent _ _) = True"
| "is_cell_mutation (SetValues _ _ _) = True"
| "is_cell_mutation _ = False"

text \<open>
  The state behind the host services. The user properties are kept by key family
  (\<open>dataset_<id>\<close>, \<open>datasets_index\<close>, \<open>job_<id>\<close>, \<open>QBO_Dataset_<id>\<close>,
  \<open>trigger_<id>\<close>), each with its JSON value already parsed; ids are taken not to make
  keys of two families coincide. \<open>w_maxCellsWarning\<close> and \<open>w_maxCellsHard\<close> are
  \<open>parseInt(getConfig(...))\<close>, \<open>None\<close> for \<open>NaN\<close>.

  The logger keeps \<open>logQueue\<close> and \<open>lastFlushTime\<close>, set when the script is loaded, and
  the property \<open>log_batch\<close>; \<open>w_logRows\<close> is \<open>getLastRow()\<close> of the log sheet, which datasets
  are taken not to write to. \<open>w_now\<close> is the clock in ms: it is moved on where the code waits
  for the lock, and the rest of a run is taken to pass in no time. \<open>w_new_sid w n\<close> is the id
  the host gives a sheet the logger inserts into a document of \<open>n\<close> sheets.
  \<open>w_notifications\<close> says that the property \<open>SCHEDULE_ERROR_NOTIFICATIONS\<close> is \<open>'true'\<close> and
  the user has an email address.
\<close>

record world =
  w_datasets :: "string \<rightharpoonup> dataset"
  w_index :: "string list option"
  w_jobs :: "string \<rightharpoonup> job"
  w_trigger_of :: "string \<rightharpoonup> string"
  w_dataset_of :: "string \<rightharpoonup> string"
  w_triggers :: "string list"
  w_lock :: lock_holder
  w_sheets :: "sheet list"
  w_named :: "string \<rightharpoonup> (nat \<times> range_ref)"
  w_maxCellsWarning :: "nat option"
  w_maxCellsHard :: "nat option"
  w_logQueue :: "string list"
  w_logBatch :: "string list option"
  w_lastFlushTime :: nat
  w_logRows :: nat
  w_now :: nat
  w_new_sid :: "nat \<Rightarrow> nat"
  w_notifications :: bool
  w_events :: "event list"

definition emit :: "event \<Rightarrow> world \<Rightarrow> world" where
  "emit e w = w\<lparr>w_events := w_events w @ [e]\<rparr>"

text \<open>
  \<open>parseInt(text, 10)\<close>: leading white space, an optional sign and the decimal digits that
  follow; \<open>None\<close> for \<open>NaN\<close>. \<open>show_nat\<close> is \<open>toString()\<close> of a non-negative number.
\<close>

definition digit_val :: "char \<Rightarrow> nat" where
  "digit_val c = (of_char c :: nat) - 48"

definition parse_int10 :: "string \<Rightarrow> int option" where
  "parse_int10 s =
     (let t = dropWhile is_space s;
          negative = (case t of [] \<Rightarrow> False | c # _ \<Rightarrow> c = CHR ''-'');
          unsigned = (case t of
                        [] \<Rightarrow> []
                      | c # cs \<Rightarrow> if c = CHR ''-'' \<or> c = CHR ''+'' then cs else t);
          ds = takeWhile is_digit unsigned
      in if ds = [] then None
         else Some ((if negative then - 1 else 1)
                      * int (foldl (\<lambda>n c. 10 * n + digit_val c) 0 ds)))"

function show_nat :: "nat \<Rightarrow> string" where
  "show_nat n =
     (if n < 10 then [char_of (48 + n)] else show_nat (n div 10) @ [char_of (48 + n mod 10)])"
  by pat_completeness auto
termination
  by (relation "measure id") auto

declare show_nat.simps [simp del]

section \<open>Logging: logAction\<close>

definition LOG_BATCH_SIZE :: nat where
  "LOG_BATCH_SIZE = 100"

definition LOG_ROTATION_ROWS :: nat where
  "LOG_ROTATION_ROWS = 50000"

definition LOG_BATCH_FLUSH_INTERVAL :: nat where
  "LOG_BATCH_FLUSH_INTERVAL = 10000"

definition LOGS_SHEET_NAME :: string where
  "LOGS_SHEET_NAME = ''QBO_Connector_Logs''"

definition LOG_HEADERS :: "string list" where
  "LOG_HEADERS =
     [''ts_iso'', ''user_email'', ''schedule_owner_email'', ''action'', ''dataset_type'',
      ''dataset_id'', ''report_name'', ''params_json'', ''start_date'', ''end_date'',
      ''method'', ''query_select'', ''query_from'', ''query_where'', ''query_orderby'',
      ''query_startposition'', ''query_maxresults'', ''realmId'', ''minorversion'',
      ''target_sheet'', ''target_named_range'', ''rows'', ''cols'', ''elapsed_ms'',
      ''status'', ''http_status'', ''error_code'', ''error_message'', ''intuit_tid'',
      ''retry_after'', ''schedule_id'', ''schedule_freq'', ''request_id'', ''job_id'',
      ''dataset_version'', ''qbo_endpoint'', ''response_bytes'', ''transport'']"

text \<open>
  A log entry is kept by its action; in the row written to the log sheet the action stands
  in its column and the other 37 cells, which depend on the call site and the clock, are
  left blank. The text of a timestamp is the clock reading in decimal.
\<close>

definition log_row :: "string \<Rightarrow> string list" where
  "log_row action = replicate 3 '''' @ [action] @ replicate 34 ''''"

definition timestamp :: "nat \<Rightarrow> string" where
  "timestamp t = show_nat t"

definition getSheetByName :: "string \<Rightarrow> world \<Rightarrow> sheet option" where
  "getSheetByName name w = List.find (\<lambda>s. sh_name s = name) (w_sheets w)"

text \<open>
  \<open>addToLogQueue\<close>: the entry joins the queue of the execution and the copy kept under the
  property \<open>log_batch\<close>, which is cut back to its last \<open>LOG_BATCH_SIZE\<close> entries once it
  holds more than twice as many.
\<close>

definition addToLogQueue :: "string \<Rightarrow> world \<Rightarrow> world" where
  "addToLogQueue logEntry w =
     (let batch = (case w_logBatch w of None \<Rightarrow> [] | Some b \<Rightarrow> b) @ [logEntry]
      in w\<lparr>w_logQueue := w_logQueue w @ [logEntry],
           w_logBatch := Some (if length batch > LOG_BATCH_SIZE * 2
                               then drop (length batch - LOG_BATCH_SIZE) batch else batch)\<rparr>)"

text \<open>
  \<open>initializeLogsSheet\<close>: the log sheet, inserted with its header row when the document has
  none. Frozen rows and column widths are not kept.
\<close>

definition initializeLogsSheet :: "world \<Rightarrow> sheet \<times> world" where
  "initializeLogsSheet w =
     (case getSheetByName LOGS_SHEET_NAME w of
        Some logsSheet \<Rightarrow> (logsSheet, w)
      | None \<Rightarrow>
          (let logsSheet = \<lparr>sh_id = w_new_sid w (length (w_sheets w)),
                            sh_name = LOGS_SHEET_NAME\<rparr>;
               headerRange = Block ''A1'' 1 (length LOG_HEADERS);
               w1 = emit (InsertSheet LOGS_SHEET_NAME) (w\<lparr>w_sheets := w_sheets w @ [logsSheet]\<rparr>);
               w2 = emit (SetValues (sh_id logsSheet) headerRange [LOG_HEADERS])
                      (w1\<lparr>w_logRows := 1\<rparr>)
           in (logsSheet, emit (FormatHeader (sh_id logsSheet) headerRange) w2)))"

text \<open>
  \<open>rotateLogsSheet\<close>: the sheet is renamed to its archive name and a new log sheet is made;
  \<open>setName\<close> throws when a sheet has that name already, which the function catches.
\<close>

definition rotateLogsSheet :: "sheet \<Rightarrow> world \<Rightarrow> world" where
  "rotateLogsSheet logsSheet w =
     (let archiveName = LOGS_SHEET_NAME @ ''_Archive_'' @ timestamp (w_now w)
      in if getSheetByName archiveName w \<noteq> None
         then emit (ConsoleError ''Error rotating logs sheet:'') w
         else snd (initializeLogsSheet
                (w\<lparr>w_sheets := map (\<lambda>s. if sh_id s = sh_id logsSheet
                                          then s\<lparr>sh_name := archiveName\<rparr> else s)
                                   (w_sheets w)\<rparr>)))"

text \<open>
  \<open>flushLogQueue\<close>: the queued entries are appended to the log sheet below its last row by
  one \<open>setValues\<close>; then the queue is emptied, the time of the flush noted and the property
  \<open>log_batch\<close> deleted. A failure is caught and leaves the queue as it is.
\<close>

definition flushLogQueue :: "world \<Rightarrow> world" where
  "flushLogQueue w =
     (if w_logQueue w = [] then w
      else
        (let initialized = initializeLogsSheet w;
             w1 = snd initialized;
             rotate = (w_logRows w1 > LOG_ROTATION_ROWS);
             w2 = (if rotate then rotateLogsSheet (fst initialized) w1 else w1)
         in case (if rotate then getSheetByName LOGS_SHEET_NAME w2 else Some (fst initialized)) of
              None \<Rightarrow> emit (ConsoleError ''Error flushing log queue:'') w2
            | Some logsSheet \<Rightarrow>
                (let rows = map log_row (w_logQueue w2);
                     startRow = w_logRows w2 + 1;
                     w3 = emit (SetValues (sh_id logsSheet)
                                  (Block (''A'' @ show_nat startRow) (length rows)
                                     (length LOG_HEADERS)) rows) w2
                 in w3\<lparr>w_logRows := w_logRows w2 + length rows, w_logQueue := [],
                        w_lastFlushTime := w_now w3, w_logBatch := None\<rparr>)))"

text \<open>
  \<open>logAction\<close> catches its own failures. The entry is queued, and the queue is flushed once
  it holds \<open>LOG_BATCH_SIZE\<close> entries or more than \<open>LOG_BATCH_FLUSH_INTERVAL\<close> ms have passed
  since the last flush. The call itself is recorded as the event \<open>Log action\<close>.
\<close>

definition logAction :: "string \<Rightarrow> world \<Rightarrow> world" where
  "logAction action w =
     (let w1 = addToLogQueue action (emit (Log action) w);
          shouldFlush = (length (w_logQueue w1) \<ge> LOG_BATCH_SIZE
                         \<or> w_now w1 - w_lastFlushTime w1 > LOG_BATCH_FLUSH_INTERVAL)
      in if shouldFlush then flushLogQueue w1 else w1)"

section \<open>Dataset registry\<close>

definition SUPPORTED_REPORTS :: "string list" where
  "SUPPORTED_REPORTS =
     [''profitAndLoss'', ''balanceSheet'', ''trialBalance'', ''transactionListByDate'',
      ''salesByCustomer'']"

text \<open>
  \<open>SUPPORTED_REPORTS[reportType]\<close> is a property lookup on an object: besides the five
  report names it finds what every object inherits.
\<close>

definition OBJECT_PROTOTYPE_KEYS :: "string list" where
  "OBJECT_PROTOTYPE_KEYS =
     [''constructor'', ''toString'', ''toLocaleString'', ''valueOf'', ''hasOwnProperty'',
      ''isPrototypeOf'', ''propertyIsEnumerable'', ''__proto__'', ''__defineGetter__'',
      ''__defineSetter__'', ''__lookupGetter__'', ''__lookupSetter__'']"

text \<open>\<open>/^[A-Z]+[1-9][0-9]*$/\<close>\<close>

definition is_anchor :: "string \<Rightarrow> bool" where
  "is_anchor s =
     (takeWhile is_upper s \<noteq> [] \<and>
      (case dropWhile is_upper s of
         [] \<Rightarrow> False
       | d # ds \<Rightarrow> is_digit d \<and> d \<noteq> CHR ''0'' \<and> list_all is_digit ds))"

definition sanitizeAnchorCell :: "string \<Rightarrow> string" where
  "sanitizeAnchorCell anchor =
     (if anchor = '''' then ''A1''
      else (let cleaned = map to_upper (trim anchor)
            in if is_anchor cleaned then cleaned else ''A1''))"

definition or_else :: "string \<Rightarrow> string \<Rightarrow> string" where
  "or_else a b = (if a \<noteq> '''' then a else b)"

definition normalizeDatasetTarget :: "target \<Rightarrow> string \<Rightarrow> target" where
  "normalizeDatasetTarget tg datasetName =
     tg\<lparr>tg_sheetName := or_else (tg_sheetName tg) (or_else datasetName ''QBO Data''),
        tg_anchorA1 := sanitizeAnchorCell (tg_anchorA1 tg),
        tg_allowResize := Some (tg_allowResize tg \<noteq> Some False)\<rparr>"

definition empty_target :: target where
  "empty_target = \<lparr>tg_sheetId = '''', tg_sheetName = '''', tg_anchorA1 = '''',
                    tg_allowResize = None, tg_namedRange = ''''\<rparr>"

text \<open>\<open>validateDataset\<close>: \<open>None\<close> for \<open>{valid: true}\<close>, else the error text.\<close>

definition validateDataset :: "dataset \<Rightarrow> string option" where
  "validateDataset d =
     (if ds_type d \<notin> {''standard'', ''query''}
        then Some ''Invalid dataset type. Must be \"standard\" or \"query\"''
      else if trim (ds_name d) = '''' then Some ''Dataset name is required''
      else case ds_params d of
        None \<Rightarrow> Some ''Dataset parameters are required''
      | Some p \<Rightarrow>
         (let type_error =
            (if ds_type d = ''standard'' then
               (if pr_reportType p = ''''
                  then Some ''Report type is required for standard datasets''
                else if pr_reportType p \<notin> set SUPPORTED_REPORTS \<union> set OBJECT_PROTOTYPE_KEYS
                  then Some (''Unsupported report type: '' @ pr_reportType p)
                else None)
             else
               (if pr_query p = '''' then Some ''Query is required for query datasets''
                else if \<not> pq_valid (parseQuery (pr_query p))
                  then Some (''Invalid query: '' @ pq_error (parseQuery (pr_query p)))
                else None))
          in case type_error of
            Some e \<Rightarrow> Some e
          | None \<Rightarrow>
             (case ds_target d of
                None \<Rightarrow> Some ''Target configuration is required''
              | Some tg \<Rightarrow>
                  if trim (tg_sheetName tg) = '''' then Some ''Target sheet name is required''
                  else if \<not> is_anchor (tg_anchorA1 tg)
                    then Some ''Invalid anchor cell. Use A1 notation.''
                  else None)))"

definition getDatasetById :: "string \<Rightarrow> world \<Rightarrow> dataset option" where
  "getDatasetById datasetId w = w_datasets w datasetId"

definition getDatasets :: "world \<Rightarrow> dataset list" where
  "getDatasets w =
     (case w_index w of
        None \<Rightarrow> []
      | Some datasetIds \<Rightarrow> List.map_filter (w_datasets w) datasetIds)"

definition updateDatasetsIndex :: "string \<Rightarrow> string \<Rightarrow> world \<Rightarrow> world" where
  "updateDatasetsIndex datasetId action w =
     (let datasetIds = (case w_index w of None \<Rightarrow> [] | Some ids \<Rightarrow> ids);
          updated =
            (if action = ''add'' then
               (if datasetId \<in> set datasetIds then datasetIds else datasetIds @ [datasetId])
             else if action = ''remove'' then filter (\<lambda>i. i \<noteq> datasetId) datasetIds
             else datasetIds)
      in w\<lparr>w_index := Some updated\<rparr>)"

definition default_schedule :: schedule where
  "default_schedule = \<lparr>sc_enabled = False, sc_freq = ''daily'', sc_timeOfDay = ''09:00''\<rparr>"

text \<open>\<open>createDataset\<close>; \<open>uuid\<close> is what \<open>Utilities.getUuid()\<close> would return.\<close>

definition createDataset :: "string \<Rightarrow> dataset \<Rightarrow> world \<Rightarrow> (string + dataset) \<times> world" where
  "createDataset uuid dataset w =
     (let d1 = dataset\<lparr>ds_target := Some (normalizeDatasetTarget
                 (case ds_target dataset of None \<Rightarrow> empty_target | Some tg \<Rightarrow> tg)
                 (ds_name dataset))\<rparr>
      in case validateDataset d1 of
        Some err \<Rightarrow> (Inl err, w)
      | None \<Rightarrow>
         (let d2 = d1\<lparr>ds_id := (if ds_id d1 = '''' then uuid else ds_id d1),
                     ds_version := 1,
                     ds_schedule := (case ds_schedule d1 of
                                       None \<Rightarrow> Some default_schedule | Some s \<Rightarrow> Some s)\<rparr>;
              w1 = w\<lparr>w_datasets := (w_datasets w)(ds_id d2 \<mapsto> d2)\<rparr>;
              w2 = updateDatasetsIndex (ds_id d2) ''add'' w1
          in (Inr d2, logAction ''create_dataset'' w2)))"

section \<open>Scheduler: triggers\<close>

text \<open>\<open>removeScheduleTrigger\<close>: what it returns, and the state it leaves.\<close>

definition removeScheduleTrigger :: "string \<Rightarrow> world \<Rightarrow> bool \<times> world" where
  "removeScheduleTrigger datasetId w =
     (case w_trigger_of w datasetId of
        None \<Rightarrow> (False, w)
      | Some triggerId \<Rightarrow>
          if triggerId = '''' then (False, w)
          else
            (let found = (triggerId \<in> set (w_triggers w));
                 w1 = (if found
                       then emit (DeleteTrigger triggerId)
                              (w\<lparr>w_triggers := filter (\<lambda>t. t \<noteq> triggerId) (w_triggers w)\<rparr>)
                       else w);
                 w2 = w1\<lparr>w_trigger_of := (w_trigger_of w1)(datasetId := None),
                         w_dataset_of := (w_dataset_of w1)(triggerId := None)\<rparr>
             in (found, logAction ''remove_schedule_trigger'' w2)))"

text \<open>
  \<open>createScheduleTrigger\<close>; \<open>tid\<close> is the unique id the host gives the new trigger. The
  hour and day arguments of the trigger builder are not kept.
\<close>

definition createScheduleTrigger ::
    "string \<Rightarrow> string \<Rightarrow> schedule option \<Rightarrow> world \<Rightarrow> (string + string option) \<times> world" where
  "createScheduleTrigger tid datasetId sched w =
     (case sched of
        None \<Rightarrow> (Inr None, w)
      | Some s \<Rightarrow>
          if \<not> sc_enabled s then (Inr None, w)
          else
            (let w1 = snd (removeScheduleTrigger datasetId w) in
             if sc_freq s \<notin> {''hourly'', ''daily'', ''weekly'', ''monthly''}
             then (Inl (''Unsupported schedule frequency: '' @ sc_freq s),
                   logAction ''create_schedule_trigger_error'' w1)
             else
               (let w2 = emit (CreateTrigger tid (sc_freq s))
                           (w1\<lparr>w_triggers := w_triggers w1 @ [tid]\<rparr>);
                    w3 = w2\<lparr>w_trigger_of := (w_trigger_of w2)(datasetId \<mapsto> tid),
                            w_dataset_of := (w_dataset_of w2)(tid \<mapsto> datasetId)\<rparr>
                in (Inr (Some tid), logAction ''create_schedule_trigger'' w3))))"

section \<open>Dataset registry: update and delete\<close>

record dataset_updates =
  up_lastWrite :: "last_write option"
  up_target :: "target option"
  up_schedule :: "schedule option"

definition merge_updates :: "dataset \<Rightarrow> dataset_updates \<Rightarrow> dataset" where
  "merge_updates existing u =
     existing\<lparr>ds_lastWrite := (case up_lastWrite u of None \<Rightarrow> ds_lastWrite existing | v \<Rightarrow> v),
              ds_target := (case up_target u of None \<Rightarrow> ds_target existing | v \<Rightarrow> v),
              ds_schedule := (case up_schedule u of None \<Rightarrow> ds_schedule existing | v \<Rightarrow> v)\<rparr>"

text \<open>
  \<open>updateDataset\<close>. Reading \<open>existing.schedule.enabled\<close> of a dataset stored without a
  schedule is a \<open>TypeError\<close>, raised after the record has been saved.
\<close>

definition updateDataset ::
    "string \<Rightarrow> string \<Rightarrow> dataset_updates \<Rightarrow> world \<Rightarrow> (string + dataset) \<times> world" where
  "updateDataset tid datasetId updates w =
     (case getDatasetById datasetId w of
        None \<Rightarrow> (Inl ''Dataset not found'', w)
      | Some existing \<Rightarrow>
         (let u1 = (merge_updates existing updates)\<lparr>ds_version := max 1 (ds_version existing) + 1\<rparr>;
              updated = u1\<lparr>ds_target := Some (normalizeDatasetTarget
                          (case ds_target u1 of None \<Rightarrow> empty_target | Some tg \<Rightarrow> tg)
                          (ds_name u1))\<rparr>
          in case validateDataset updated of
            Some err \<Rightarrow> (Inl err, w)
          | None \<Rightarrow>
             (let w1 = logAction ''update_dataset''
                         (w\<lparr>w_datasets := (w_datasets w)(datasetId \<mapsto> updated)\<rparr>)
              in case ds_schedule updated of
                   None \<Rightarrow> (Inr updated, w1)
                 | Some us \<Rightarrow>
                    (case ds_schedule existing of
                       None \<Rightarrow> (Inl ''TypeError: Cannot read properties of undefined'', w1)
                     | Some es \<Rightarrow>
                         if sc_enabled us = sc_enabled es then (Inr updated, w1)
                         else if sc_enabled us then
                           (case createScheduleTrigger tid datasetId (Some us) w1 of
                              (Inl err, w2) \<Rightarrow> (Inl err, w2)
                            | (Inr _, w2) \<Rightarrow> (Inr updated, w2))
                         else (Inr updated, snd (removeScheduleTrigger datasetId w1))))))"

definition deleteDataset :: "string \<Rightarrow> world \<Rightarrow> (string + bool) \<times> world" where
  "deleteDataset datasetId w =
     (case getDatasetById datasetId w of
        None \<Rightarrow> (Inl ''Dataset not found'', w)
      | Some dataset \<Rightarrow>
         (let w1 = (case ds_schedule dataset of
                      None \<Rightarrow> w
                    | Some s \<Rightarrow> if sc_enabled s then snd (removeScheduleTrigger datasetId w) else w);
              w2 = w1\<lparr>w_datasets := (w_datasets w1)(datasetId := None)\<rparr>;
              w3 = updateDatasetsIndex datasetId ''remove'' w2
          in (Inr True, logAction ''delete_dataset'' w3)))"

text \<open>Sequences of registry operations, for the invariant of the datasets index.\<close>

datatype registry_op = Create string dataset | Delete string

fun apply_op :: "registry_op \<Rightarrow> world \<Rightarrow> world" where
  "apply_op (Create uuid d) w = snd (createDataset uuid d w)"
| "apply_op (Delete datasetId) w = snd (deleteDataset datasetId w)"

definition apply_ops :: "registry_op list \<Rightarrow> world \<Rightarrow> world" where
  "apply_ops ops w = fold apply_op ops w"

definition index_ids :: "world \<Rightarrow> string list" where
  "index_ids w = (case w_index w of None \<Rightarrow> [] | Some ids \<Rightarrow> ids)"

text \<open>
  The registry invariant: no id twice in the index, and the record stored under
  \<open>dataset_<id>\<close> carries that id.
\<close>

definition registry_inv :: "world \<Rightarrow> bool" where
  "registry_inv w =
     (distinct (index_ids w) \<and> (\<forall>i d. w_datasets w i = Some d \<longrightarrow> ds_id d = i))"

definition fresh_world :: world where
  "fresh_world =
     \<lparr>w_datasets = Map.empty, w_index = None, w_jobs = Map.empty, w_trigger_of = Map.empty,
      w_dataset_of = Map.empty, w_triggers = [], w_lock = Free, w_sheets = [],
      w_named = Map.empty, w_maxCellsWarning = Some 2000000, w_maxCellsHard = Some 8000000,
      w_logQueue = [], w_logBatch = None, w_lastFlushTime = 0, w_logRows = 0, w_now = 0,
      w_new_sid = (\<lambda>n. 100 + n), w_notifications = False, w_events = []\<rparr>"

text \<open>A query dataset as the sidebar submits it, used in the worked examples.\<close>

definition customers_dataset :: dataset where
  "customers_dataset =
     \<lparr>ds_id = ''a1'', ds_type = ''query'', ds_name = ''Customers'',
      ds_params = Some \<lparr>pr_reportType = '''', pr_query = ''SELECT * FROM Customer''\<rparr>,
      ds_target = None, ds_schedule = None, ds_lastWrite = None, ds_version = 0\<rparr>"

section \<open>Paginated queries: runCustomQuery\<close>

text \<open>
  The body of a reply with status 200: the entities found under the queried entity name
  (\<open>[]\<close> when the key is absent), \<open>totalCount\<close> when the reply carries one, and
  \<open>startPosition\<close> (0 when absent, which \<open>||\<close> replaces by the requested start).
\<close>

record query_response =
  qr_entities :: "entity list"
  qr_totalCount :: "nat option"
  qr_startPosition :: nat

text \<open>A reply: status, body (\<open>None\<close> when \<open>JSON.parse\<close> rejects it), and the fault message.\<close>

record page_reply =
  pg_status :: nat
  pg_body :: "query_response option"
  pg_fault :: string

text \<open>
  What the loop cannot decide itself: whether the account is connected, whether the
  OAuth service has access when request \<open>n\<close> is made, and the server's reply to request
  \<open>n\<close> for a start offset and a page size.
\<close>

record query_env =
  qe_connected :: bool
  qe_realmId :: string
  qe_access :: "nat \<Rightarrow> bool"
  qe_server :: "nat \<Rightarrow> nat \<Rightarrow> nat \<Rightarrow> page_reply"

text \<open>
  The variables of the loop, with two ghost fields: \<open>ls_requests\<close>, the (start, page size)
  of every request issued, and \<open>ls_pages\<close>, for every successful page its requested start,
  the start the reply names and the number of rows it returned.
\<close>

record loop_state =
  ls_currentStart :: nat
  ls_aggregated :: "entity list"
  ls_totalCount :: nat
  ls_fetchedPages :: nat
  ls_requests :: "(nat \<times> nat) list"
  ls_pages :: "(nat \<times> nat \<times> nat) list"

datatype query_outcome =
    QuerySuccess "entity list" nat bool "nat option"
  | QueryFailure string nat

text \<open>
  One turn of \<open>while (true)\<close>: \<open>Inl\<close> is the value the function leaves with (a thrown
  error is the inner \<open>Inl\<close>), \<open>Inr\<close> the state for the next turn. URL building, the
  GET/POST choice, the log entries and the pause between pages do not bear on the
  pagination and are left out.
\<close>

definition page_step ::
    "query_env \<Rightarrow> bool \<Rightarrow> nat \<Rightarrow> nat \<Rightarrow> loop_state
      \<Rightarrow> ((string + query_outcome) \<times> loop_state) + loop_state" where
  "page_step env fetchAll maxPages pageSize st =
     (let fetchedPages = Suc (ls_fetchedPages st);
          currentStart = ls_currentStart st
      in if \<not> qe_access env fetchedPages
         then Inl (Inl ''OAuth access token unavailable. Reconnect to QuickBooks.'',
                   st\<lparr>ls_fetchedPages := fetchedPages\<rparr>)
         else
           (let reply = qe_server env fetchedPages currentStart pageSize;
                st1 = st\<lparr>ls_fetchedPages := fetchedPages,
                         ls_requests := ls_requests st @ [(currentStart, pageSize)]\<rparr>
            in if pg_status reply = 200 then
                 (case pg_body reply of
                    None \<Rightarrow> Inl (Inl ''SyntaxError'', st1)
                  | Some queryResponse \<Rightarrow>
                     (let entities = qr_entities queryResponse;
                          aggregatedEntities = ls_aggregated st @ entities;
                          totalCount =
                            (case qr_totalCount queryResponse of
                               Some t \<Rightarrow> t
                             | None \<Rightarrow> if ls_totalCount st \<noteq> 0 then ls_totalCount st
                                       else length aggregatedEntities);
                          returnedCount = length entities;
                          startFromResponse =
                            (if qr_startPosition queryResponse \<noteq> 0
                             then qr_startPosition queryResponse else currentStart);
                          nextStartPosition = startFromResponse + returnedCount;
                          moreByTotal =
                            (case qr_totalCount queryResponse of
                               Some t \<Rightarrow> int startFromResponse - 1 + int returnedCount < int t
                             | None \<Rightarrow> False);
                          moreByBatch = (returnedCount = pageSize);
                          progressed = (nextStartPosition > currentStart);
                          hasMore = ((moreByTotal \<or> moreByBatch) \<and> progressed);
                          st2 = st1\<lparr>ls_aggregated := aggregatedEntities,
                                    ls_totalCount := totalCount,
                                    ls_pages := ls_pages st
                                      @ [(currentStart, startFromResponse, returnedCount)]\<rparr>
                      in if \<not> fetchAll \<or> \<not> hasMore \<or> fetchedPages \<ge> maxPages
                         then Inl (Inr (QuerySuccess aggregatedEntities totalCount hasMore
                                     (if hasMore then Some nextStartPosition else None)), st2)
                         else Inr (st2\<lparr>ls_currentStart := nextStartPosition\<rparr>)))
               else if pg_status reply = 429
                 then Inl (Inr (QueryFailure ''Rate limit exceeded'' 429), st1)
               else Inl (Inr (QueryFailure (pg_fault reply) (pg_status reply)), st1)))"

lemma page_step_continues:
  "page_step env fetchAll maxPages pageSize st = Inr st' \<Longrightarrow>
     ls_fetchedPages st' = Suc (ls_fetchedPages st) \<and> Suc (ls_fetchedPages st) < maxPages"
  by (auto simp: page_step_def Let_def split: if_splits option.splits)

function page_loop ::
    "query_env \<Rightarrow> bool \<Rightarrow> nat \<Rightarrow> nat \<Rightarrow> loop_state \<Rightarrow> (string + query_outcome) \<times> loop_state" where
  "page_loop env fetchAll maxPages pageSize st =
     (case page_step env fetchAll maxPages pageSize st of
        Inl res \<Rightarrow> res
      | Inr st' \<Rightarrow> page_loop env fetchAll maxPages pageSize st')"
  by pat_completeness auto
termination
  by (relation "measure (\<lambda>(env, fetchAll, maxPages, pageSize, st). maxPages - ls_fetchedPages st)")
     (auto dest: page_step_continues)

declare page_loop.simps [simp del]

definition QBO_MAX_PAGE_SIZE :: int where
  "QBO_MAX_PAGE_SIZE = 1000"

text \<open>
  \<open>runCustomQuery(query, startPosition, maxResults, options)\<close> of the paginating client.
  \<open>startPosition\<close> and \<open>maxResults\<close> are the values \<open>parseInt\<close> gives, 0 standing for
  \<open>NaN\<close> as well; \<open>maxPages\<close> is \<open>options.maxPages\<close>, 0 when it is absent.
\<close>

definition runCustomQuery ::
    "query_env \<Rightarrow> string \<Rightarrow> int \<Rightarrow> int \<Rightarrow> bool \<Rightarrow> nat
      \<Rightarrow> (string + query_outcome) \<times> loop_state" where
  "runCustomQuery env query startPosition maxResults fetchAll maxPagesOpt =
     (let st0 = \<lparr>ls_currentStart = 0, ls_aggregated = [], ls_totalCount = 0,
                 ls_fetchedPages = 0, ls_requests = [], ls_pages = []\<rparr>
      in if \<not> qe_connected env
           then (Inl ''Connect to QuickBooks before running API requests.'', st0)
         else if qe_realmId env = ''''
           then (Inl ''No QuickBooks company is associated with this connection.'', st0)
         else
           (let parsedQuery = parseQuery_paged query in
            if \<not> pq_valid parsedQuery
              then (Inl (''Invalid query: '' @ pq_error parsedQuery), st0)
            else
              (let maxPages = (if maxPagesOpt = 0 then 50 else maxPagesOpt);
                   pageSize = nat (max 1 (min QBO_MAX_PAGE_SIZE
                                (if maxResults = 0 then QBO_MAX_PAGE_SIZE else maxResults)));
                   currentStart = nat (max 1 (if startPosition = 0 then 1 else startPosition))
               in page_loop env fetchAll maxPages pageSize
                    (st0\<lparr>ls_currentStart := currentStart\<rparr>))))"



text \<open>
  Servers for the worked examples. \<open>serve store cap per_page\<close> answers a request for
  \<open>size\<close> rows from offset \<open>start\<close> with the rows it holds there, at most \<open>cap\<close> of them,
  echoes the start, and reports as \<open>totalCount\<close> either the size of the store or, with
  \<open>per_page\<close>, the number of rows in this reply.
\<close>

definition serve :: "entity list \<Rightarrow> nat \<Rightarrow> bool \<Rightarrow> nat \<Rightarrow> nat \<Rightarrow> nat \<Rightarrow> page_reply" where
  "serve store cap per_page n start psize =
     (let found = take (min cap psize) (drop (start - 1) store)
      in \<lparr>pg_status = 200,
          pg_body = Some \<lparr>qr_entities = found,
                           qr_totalCount = Some (if per_page then length found else length store),
                           qr_startPosition = start\<rparr>,
          pg_fault = ''''\<rparr>)"

definition customer :: "string \<Rightarrow> entity" where
  "customer i = [(''Id'', JPrim i)]"

definition online :: "(nat \<Rightarrow> nat \<Rightarrow> nat \<Rightarrow> page_reply) \<Rightarrow> query_env" where
  "online server =
     \<lparr>qe_connected = True, qe_realmId = ''9130'', qe_access = (\<lambda>n. True), qe_server = server\<rparr>"

text \<open>
  The continuation test of the loop for a reply with status 200, as the loop computes it
  from the start of the request, the page size and the body of the reply.
\<close>

definition startFromResponse :: "nat \<Rightarrow> query_response \<Rightarrow> nat" where
  "startFromResponse currentStart queryResponse =
     (if qr_startPosition queryResponse \<noteq> 0 then qr_startPosition queryResponse
      else currentStart)"

definition nextStartPosition :: "nat \<Rightarrow> query_response \<Rightarrow> nat" where
  "nextStartPosition currentStart queryResponse =
     startFromResponse currentStart queryResponse + length (qr_entities queryResponse)"

definition moreByTotal :: "nat \<Rightarrow> query_response \<Rightarrow> bool" where
  "moreByTotal currentStart queryResponse =
     (case qr_totalCount queryResponse of
        Some t \<Rightarrow> int (startFromResponse currentStart queryResponse) - 1
                    + int (length (qr_entities queryResponse)) < int t
      | None \<Rightarrow> False)"

definition moreByBatch :: "nat \<Rightarrow> query_response \<Rightarrow> bool" where
  "moreByBatch pageSize queryResponse = (length (qr_entities queryResponse) = pageSize)"

definition hasMore :: "nat \<Rightarrow> nat \<Rightarrow> query_response \<Rightarrow> bool" where
  "hasMore currentStart pageSize queryResponse =
     ((moreByTotal currentStart queryResponse \<or> moreByBatch pageSize queryResponse)
      \<and> nextStartPosition currentStart queryResponse > currentStart)"





section \<open>Resilient API client: qboFetch_\<close>

text \<open>
  The body of a response, by what \<open>JSON.parse\<close> makes of it: empty text, text that does not
  parse, a \<open>Fault\<close> with the \<open>Message\<close> and \<open>Detail\<close> of its first error, an object with
  an \<open>error\<close> field, or any other JSON value.
\<close>

datatype body = NoBody | BadJson string | Fault string string | ErrorField string | OtherJson

text \<open>
  \<open>hr_retryAfter\<close> is \<open>Number(responseHeaders['Retry-After'] || 0)\<close> in seconds, 0 when the
  header is absent or not a positive number.
\<close>

record http_response =
  hr_status :: nat
  hr_body :: body
  hr_retryAfter :: nat

datatype fetch_error =
    MissingCredentials
  | NotAuthorized
  | JsonSyntaxError
  | QboHttp nat string
  | AuthorizationExpired nat string

text \<open>
  What \<open>qboFetch_\<close> meets: whether the client credentials are configured, whether the
  OAuth service has access when attempt \<open>n\<close> starts, the response to the request of
  attempt \<open>n\<close>, and the draw \<open>Math.floor(Math.random() * 250)\<close> of attempt \<open>n\<close> (taken
  modulo 250).
\<close>

record fetch_env =
  fe_credentials :: bool
  fe_access :: "nat \<Rightarrow> bool"
  fe_respond :: "nat \<Rightarrow> http_response"
  fe_random :: "nat \<Rightarrow> nat"

text \<open>
  What a call does: the attempts that issued a request, the calls of \<open>svc.refresh()\<close> and
  \<open>svc.reset()\<close> (a failure of either is caught and logged), and the sleeps, each with
  the attempt it follows.
\<close>

record fetch_trace =
  ft_requests :: "nat list"
  ft_refreshes :: nat
  ft_resets :: nat
  ft_sleeps :: "(nat \<times> nat) list"

definition no_trace :: fetch_trace where
  "no_trace = \<lparr>ft_requests = [], ft_refreshes = 0, ft_resets = 0, ft_sleeps = []\<rparr>"

text \<open>The text appended to \<open>'QBO HTTP ' + status\<close>.\<close>

fun fault_text :: "body \<Rightarrow> string" where
  "fault_text NoBody = '': ''"
| "fault_text (BadJson t) = '': '' @ t"
| "fault_text (Fault m d) =
     (if m \<noteq> '''' then '': '' @ m else '''') @ (if d \<noteq> '''' then '' | '' @ d else '''')"
| "fault_text (ErrorField e) = (if e \<noteq> '''' then '': '' @ e else '''')"
| "fault_text OtherJson = ''''"

definition maxAttempts :: nat where
  "maxAttempts = 6"

definition baseDelay :: "nat \<Rightarrow> nat" where
  "baseDelay attemptNumber = min 30000 (2 ^ attemptNumber * 250)"

definition waitMs :: "fetch_env \<Rightarrow> nat \<Rightarrow> nat" where
  "waitMs env attemptNumber =
     (let retryAfter = hr_retryAfter (fe_respond env attemptNumber);
          jitter = fe_random env attemptNumber mod 250
      in if retryAfter > 0 then retryAfter * 1000 else baseDelay attemptNumber + jitter)"

definition retryable :: "nat \<Rightarrow> bool" where
  "retryable status = (status = 429 \<or> (500 \<le> status \<and> status \<le> 504))"

text \<open>
  One activation of \<open>qboFetch_(url, options, attempt)\<close>, \<open>attempt\<close> 0 being the omitted
  argument: \<open>Inl\<close> is what it returns or throws, \<open>Inr\<close> the attempt number and trace of the
  recursive call it makes.
\<close>

definition fetch_step ::
    "fetch_env \<Rightarrow> nat \<Rightarrow> fetch_trace
      \<Rightarrow> ((fetch_error + body) \<times> fetch_trace) + (nat \<times> fetch_trace)" where
  "fetch_step env attempt tr =
     (if \<not> fe_credentials env then Inl (Inl MissingCredentials, tr)
      else
        (let attemptNumber = (if attempt = 0 then 1 else attempt) in
         if \<not> fe_access env attemptNumber then Inl (Inl NotAuthorized, tr)
         else
           (let response = fe_respond env attemptNumber;
                status = hr_status response;
                tr1 = tr\<lparr>ft_requests := ft_requests tr @ [attemptNumber]\<rparr>
            in if 200 \<le> status \<and> status < 300 then
                 (case hr_body response of
                    NoBody \<Rightarrow> Inl (Inr OtherJson, tr1)
                  | BadJson t \<Rightarrow> Inl (Inl JsonSyntaxError, tr1)
                  | b \<Rightarrow> Inl (Inr b, tr1))
               else if status = 401 \<and> attemptNumber = 1 then
                 Inr (attemptNumber + 1, tr1\<lparr>ft_refreshes := ft_refreshes tr1 + 1\<rparr>)
               else if retryable status \<and> attemptNumber < maxAttempts then
                 Inr (attemptNumber + 1,
                   tr1\<lparr>ft_sleeps := ft_sleeps tr1 @ [(attemptNumber, waitMs env attemptNumber)]\<rparr>)
               else if status = 401 then
                 Inl (Inl (AuthorizationExpired status (fault_text (hr_body response))),
                      tr1\<lparr>ft_resets := ft_resets tr1 + 1\<rparr>)
               else Inl (Inl (QboHttp status (fault_text (hr_body response))), tr1))))"

lemma fetch_step_continues:
  assumes "fetch_step env attempt tr = Inr (attempt', tr')"
  shows "attempt' = Suc (if attempt = 0 then 1 else attempt) \<and> attempt' \<le> maxAttempts"
proof -
  let ?n = "if attempt = 0 then 1 else attempt"
  let ?status = "hr_status (fe_respond env ?n)"
  from assms have c: "fe_credentials env" "fe_access env ?n"
    by (auto simp: fetch_step_def Let_def split: if_splits)
  from assms c have ns: "\<not> (200 \<le> ?status \<and> ?status < 300)"
    by (auto simp: fetch_step_def Let_def split: if_splits body.splits)
  show ?thesis
  proof (cases "?status = 401 \<and> ?n = 1")
    case True
    with assms c ns show ?thesis by (auto simp: fetch_step_def Let_def maxAttempts_def)
  next
    case False
    with assms c ns show ?thesis
      by (auto simp: fetch_step_def Let_def split: if_splits)
  qed
qed

function qboFetch :: "fetch_env \<Rightarrow> nat \<Rightarrow> fetch_trace \<Rightarrow> (fetch_error + body) \<times> fetch_trace" where
  "qboFetch env attempt tr =
     (case fetch_step env attempt tr of
        Inl res \<Rightarrow> res
      | Inr (attempt', tr') \<Rightarrow> qboFetch env attempt' tr')"
  by pat_completeness auto
termination
proof (relation "measure (\<lambda>(env, attempt, tr). Suc maxAttempts - (if attempt = 0 then 1 else attempt))")
  show "wf (measure (\<lambda>(env, attempt, tr).
      Suc maxAttempts - (if attempt = 0 then 1 else attempt)))"
    by simp
next
  fix env attempt tr x2 x y
  assume "fetch_step env attempt tr = Inr x2" and "(x, y) = x2"
  then have "fetch_step env attempt tr = Inr (x, y)" by simp
  from fetch_step_continues [OF this]
  show "((env, x, y), env, attempt, tr) \<in> measure (\<lambda>(env, attempt, tr).
      Suc maxAttempts - (if attempt = 0 then 1 else attempt))"
    by (auto split: if_splits)
qed

declare qboFetch.simps [simp del]

section \<open>Resilient API client: makeAuthenticatedRequest\<close>

text \<open>
  What \<open>makeAuthenticatedRequest\<close> meets: whether the client credentials are stored,
  \<open>service.hasAccess()\<close>, whether \<open>refreshAccessToken\<close> finds the token within 30 minutes
  of expiry, the stored realm id (empty when absent), the response to the \<open>n\<close>-th request
  (\<open>Inl\<close> when \<open>UrlFetchApp.fetch\<close> throws), and the error \<open>service.refresh()\<close> throws, if
  any, when it is called after the \<open>n\<close>-th request.
\<close>

record auth_env =
  ae_credentials :: bool
  ae_access :: bool
  ae_expiring :: bool
  ae_realmId :: string
  ae_respond :: "nat \<Rightarrow> string + http_response"
  ae_refresh_throws :: "nat \<Rightarrow> string option"

text \<open>
  The trace of a call: the requests issued, the calls of \<open>service.refresh()\<close> made by
  \<open>refreshAccessToken\<close> before the request and those made after a 401 (a call that throws
  is counted), the calls of \<open>service.reset()\<close>, and the sleeps \<open>(attempt, ms)\<close>. The log
  entries of the two functions are left out.
\<close>

record auth_trace =
  at_requests :: "nat list"
  at_expiry_refreshes :: nat
  at_refreshes :: nat
  at_resets :: nat
  at_sleeps :: "(nat \<times> nat) list"

definition no_auth_trace :: auth_trace where
  "no_auth_trace = \<lparr>at_requests = [], at_expiry_refreshes = 0, at_refreshes = 0, at_resets = 0,
                     at_sleeps = []\<rparr>"

text \<open>
  \<open>refreshAccessToken\<close>: with access and a token about to expire, one \<open>service.refresh()\<close>;
  the function catches what it throws.
\<close>

definition refreshAccessToken :: "auth_env \<Rightarrow> auth_trace \<Rightarrow> auth_trace" where
  "refreshAccessToken env tr =
     (if ae_access env \<and> ae_expiring env
      then tr\<lparr>at_expiry_refreshes := at_expiry_refreshes tr + 1\<rparr> else tr)"

text \<open>
  \<open>makeAuthenticatedRequest\<close> of \<open>src/unnamed/part_000\<close>. It returns the HTTP response,
  whatever its status.
\<close>

definition makeAuthenticatedRequest ::
    "auth_env \<Rightarrow> auth_trace \<Rightarrow> (string + http_response) \<times> auth_trace" where
  "makeAuthenticatedRequest env tr =
     (if \<not> ae_access env
        then (Inl ''Not authenticated. Please connect to QuickBooks first.'', tr)
      else
        (let tr0 = refreshAccessToken env tr in
         if ae_realmId env = ''''
           then (Inl ''No QuickBooks company selected. Please reconnect.'', tr0)
         else
           (let tr1 = tr0\<lparr>at_requests := at_requests tr0 @ [1]\<rparr>
            in case ae_respond env 1 of
                 Inl err \<Rightarrow> (Inl err, tr1)
               | Inr response \<Rightarrow>
                   if hr_status response = 401 then
                     (let tr2 = tr1\<lparr>at_refreshes := at_refreshes tr1 + 1\<rparr>
                      in case ae_refresh_throws env 1 of
                           Some err \<Rightarrow> (Inl err, tr2)
                         | None \<Rightarrow>
                             (let tr3 = tr2\<lparr>at_requests := at_requests tr2 @ [2]\<rparr>
                              in case ae_respond env 2 of
                                   Inl err \<Rightarrow> (Inl err, tr3)
                                 | Inr retryResponse \<Rightarrow> (Inr retryResponse, tr3)))
                   else (Inr response, tr1))))"

text \<open>
  \<open>fetchWithRetry\<close> of \<open>src/Auth.gs\<close>, one turn of its loop: the request of this attempt and
  what follows it. \<open>Inl\<close> is the response returned; \<open>Inr\<close> carries \<open>lastError\<close> and the trace
  to the next attempt.
\<close>

definition retryMaxAttempts :: nat where
  "retryMaxAttempts = 4"

definition baseDelayMs :: nat where
  "baseDelayMs = 750"

definition retry_step ::
    "auth_env \<Rightarrow> nat \<Rightarrow> string option \<Rightarrow> auth_trace
      \<Rightarrow> (http_response \<times> auth_trace) + (string option \<times> auth_trace)" where
  "retry_step env attempt lastError tr =
     (let tr1 = tr\<lparr>at_requests := at_requests tr @ [attempt + 1]\<rparr>;
          caught = (\<lambda>err t. Inr (Some err,
                      t\<lparr>at_sleeps := at_sleeps t @ [(attempt, 2 ^ attempt * baseDelayMs)]\<rparr>))
      in case ae_respond env (attempt + 1) of
           Inl err \<Rightarrow> caught err tr1
         | Inr response \<Rightarrow>
             if hr_status response = 401 then
               (let tr2 = tr1\<lparr>at_refreshes := at_refreshes tr1 + 1\<rparr>
                in case ae_refresh_throws env (attempt + 1) of
                     Some err \<Rightarrow> caught err tr2
                   | None \<Rightarrow> Inr (lastError, tr2))
             else if hr_status response = 429
                     \<or> (hr_status response \<ge> 500 \<and> hr_status response < 600) then
               (let delay = (if hr_retryAfter response \<noteq> 0 then hr_retryAfter response * 1000
                             else 2 ^ attempt * baseDelayMs)
                in Inr (lastError, tr1\<lparr>at_sleeps := at_sleeps tr1 @ [(attempt, min delay 60000)]\<rparr>))
             else Inl (response, tr1))"

function fetchWithRetry ::
    "auth_env \<Rightarrow> nat \<Rightarrow> string option \<Rightarrow> auth_trace \<Rightarrow> (string + http_response) \<times> auth_trace" where
  "fetchWithRetry env attempt lastError tr =
     (if attempt < retryMaxAttempts then
        (case retry_step env attempt lastError tr of
           Inl (response, tr') \<Rightarrow> (Inr response, tr')
         | Inr (lastError', tr') \<Rightarrow> fetchWithRetry env (Suc attempt) lastError' tr')
      else
        (case lastError of
           Some err \<Rightarrow> (Inl err, tr)
         | None \<Rightarrow> (Inl ''Request failed after multiple attempts'', tr)))"
  by pat_completeness auto
termination
  by (relation "measure (\<lambda>(env, attempt, lastError, tr). retryMaxAttempts - attempt)") auto

declare fetchWithRetry.simps [simp del]

text \<open>\<open>makeAuthenticatedRequest\<close> of \<open>src/Auth.gs\<close>, which hands the request to \<open>fetchWithRetry\<close>.\<close>

definition makeAuthenticatedRequest_Auth ::
    "auth_env \<Rightarrow> auth_trace \<Rightarrow> (string + http_response) \<times> auth_trace" where
  "makeAuthenticatedRequest_Auth env tr =
     (if \<not> ae_credentials env
        then (Inl ''OAuth credentials not configured. Please set up your QuickBooks app credentials in Settings.'', tr)
      else if \<not> ae_access env
        then (Inl ''Not authenticated. Please connect to QuickBooks first.'', tr)
      else
        (let tr0 = refreshAccessToken env tr in
         if ae_realmId env = ''''
           then (Inl ''No QuickBooks company selected. Please reconnect.'', tr0)
         else fetchWithRetry env 0 None tr0))"

text \<open>
  A sleep \<open>(attempt, ms)\<close> of the trace is in order when it follows a retryable response
  received below the attempt ceiling, and lasts what the Retry-After hint asks for or,
  without a hint, the capped exponential delay plus a jitter below 250 ms.
\<close>

definition sleep_ok :: "fetch_env \<Rightarrow> nat \<times> nat \<Rightarrow> bool" where
  "sleep_ok env e =
     (case e of (k, w) \<Rightarrow>
        k < maxAttempts \<and> retryable (hr_status (fe_respond env k)) \<and>
        (if hr_retryAfter (fe_respond env k) > 0
         then w = hr_retryAfter (fe_respond env k) * 1000
         else baseDelay k \<le> w \<and> w < baseDelay k + 250))"

fun is_auth_expired :: "fetch_error + body \<Rightarrow> bool" where
  "is_auth_expired (Inl (AuthorizationExpired _ _)) = True"
| "is_auth_expired _ = False"

text \<open>Servers for the worked examples: the statuses of the successive responses.\<close>

definition reply :: "nat \<Rightarrow> http_response" where
  "reply status = \<lparr>hr_status = status, hr_body = OtherJson, hr_retryAfter = 0\<rparr>"

definition scripted :: "nat list \<Rightarrow> fetch_env" where
  "scripted statuses =
     \<lparr>fe_credentials = True, fe_access = (\<lambda>n. True),
      fe_respond = (\<lambda>n. reply (if n - 1 < length statuses then statuses ! (n - 1) else 200)),
      fe_random = (\<lambda>n. 7 * n)\<rparr>"

definition scripted_auth :: "nat list \<Rightarrow> auth_env" where
  "scripted_auth statuses =
     \<lparr>ae_credentials = True, ae_access = True, ae_expiring = False, ae_realmId = ''9130'',
      ae_respond = (\<lambda>n. Inr (reply (if n - 1 < length statuses then statuses ! (n - 1) else 200))),
      ae_refresh_throws = (\<lambda>n. None)\<rparr>"

text \<open>\<open>attempt || 1\<close>\<close>

definition att :: "nat \<Rightarrow> nat" where
  "att attempt = (if attempt = 0 then 1 else attempt)"

section \<open>Output writer: writeDataToSheet\<close>

text \<open>The row number of an anchor in A1 notation.\<close>

definition anchor_row :: "string \<Rightarrow> nat" where
  "anchor_row a = foldl (\<lambda>n c. 10 * n + digit_val c) 0 (dropWhile is_upper a)"

text \<open>
  \<open>ensureUniqueSheetName\<close>: the base name, or the first \<open>base (n)\<close> that no sheet has.
  Among \<open>length names + 1\<close> candidates one is free, so the search ends there.
\<close>

definition numbered :: "string \<Rightarrow> nat \<Rightarrow> string" where
  "numbered baseName n = baseName @ '' ('' @ show_nat n @ '')''"

definition ensureUniqueSheetName :: "string list \<Rightarrow> string \<Rightarrow> string" where
  "ensureUniqueSheetName names desiredName =
     (let baseName = (if trim desiredName \<noteq> '''' then trim desiredName else ''QBO Data'')
      in if baseName \<notin> set names then baseName
         else (case List.find (\<lambda>n. numbered baseName n \<notin> set names) [1 ..< length names + 2] of
                 Some n \<Rightarrow> numbered baseName n
               | None \<Rightarrow> numbered baseName (length names + 2)))"

record write_result =
  wr_sheetId :: string
  wr_sheetName :: string
  wr_rangeA1 :: range_ref
  wr_rows :: nat
  wr_cols :: nat
  wr_targetUpdates :: "target_updates option"

definition no_updates :: target_updates where
  "no_updates = \<lparr>tu_sheetId = None, tu_sheetName = None, tu_anchorA1 = None,
                  tu_allowResize = None, tu_namedRange = None\<rparr>"

text \<open>\<open>Object.keys(targetUpdates).length ? targetUpdates : null\<close>\<close>

definition updates_or_null :: "target_updates \<Rightarrow> target_updates option" where
  "updates_or_null tu = (if tu = no_updates then None else Some tu)"

text \<open>
  Resolving the destination sheet: by id, then by name, else a new sheet; with the
  \<open>sheetId\<close> and \<open>sheetName\<close> entries of \<open>targetUpdates\<close>. \<open>new_sid\<close> is the id the host gives
  an inserted sheet.
\<close>

definition resolve_sheet ::
    "nat \<Rightarrow> target \<Rightarrow> string \<Rightarrow> world \<Rightarrow> sheet \<times> target_updates \<times> world" where
  "resolve_sheet new_sid tgt datasetName w =
     (let by_id =
            (if tg_sheetId tgt = '''' then None
             else (case parse_int10 (tg_sheetId tgt) of
                     None \<Rightarrow> None
                   | Some n \<Rightarrow> if n = 0 then None
                              else List.find (\<lambda>s. int (sh_id s) = n) (w_sheets w)));
          found =
            (case by_id of
               Some s \<Rightarrow> Some s
             | None \<Rightarrow> if tg_sheetName tgt = '''' then None
                       else List.find (\<lambda>s. sh_name s = tg_sheetName tgt) (w_sheets w))
      in case found of
           None \<Rightarrow>
             (let newSheetName = ensureUniqueSheetName (map sh_name (w_sheets w))
                    (or_else (tg_sheetName tgt) (or_else datasetName ''QBO Data''));
                  s = \<lparr>sh_id = new_sid, sh_name = newSheetName\<rparr>
              in (s, no_updates\<lparr>tu_sheetName := Some newSheetName,
                               tu_sheetId := Some (show_nat new_sid)\<rparr>,
                  emit (InsertSheet newSheetName) (w\<lparr>w_sheets := w_sheets w @ [s]\<rparr>)))
         | Some s \<Rightarrow>
             (let currentSheetId = show_nat (sh_id s)
              in (s, no_updates\<lparr>
                       tu_sheetId := (if tg_sheetId tgt = '''' \<or> tg_sheetId tgt \<noteq> currentSheetId
                                      then Some currentSheetId else None),
                       tu_sheetName := (if tg_sheetName tgt = '''' \<or> tg_sheetName tgt \<noteq> sh_name s
                                        then Some (sh_name s) else None)\<rparr>,
                  w)))"

text \<open>
  Clearing the range of the previous write, when the dataset records one on the sheet
  resolved; a failure of \<open>clearContent\<close> is caught.
\<close>

definition clear_previous :: "dataset \<Rightarrow> sheet \<Rightarrow> world \<Rightarrow> world" where
  "clear_previous dataset s w =
     (case ds_lastWrite dataset of
        None \<Rightarrow> w
      | Some lw \<Rightarrow>
          (case lw_rangeA1 lw of
             None \<Rightarrow> w
           | Some rng \<Rightarrow>
               if lw_sheetId lw \<noteq> '''' \<and> lw_sheetId lw = show_nat (sh_id s)
               then emit (ClearContent (sh_id s) rng) w else w))"

text \<open>The column resize loop \<open>for (i = 0; i < numCols; i++)\<close>.\<close>

definition resize_columns :: "nat \<Rightarrow> string \<Rightarrow> nat \<Rightarrow> world \<Rightarrow> world" where
  "resize_columns sid anchor numCols w =
     w\<lparr>w_events := w_events w @ map (AutoResizeColumn sid anchor) [0 ..< numCols]\<rparr>"

text \<open>
  The \<open>anchorA1\<close>, \<open>allowResize\<close> and \<open>namedRange\<close> entries of \<open>targetUpdates\<close>, added to
  those of the sheet.
\<close>

definition target_changes :: "target \<Rightarrow> target \<Rightarrow> string \<Rightarrow> target_updates \<Rightarrow> target_updates" where
  "target_changes originalTarget tgt anchorA1 tu =
     (let originalAnchor = (if tg_anchorA1 originalTarget \<noteq> ''''
                            then map to_upper (trim (tg_anchorA1 originalTarget)) else '''')
      in tu\<lparr>tu_anchorA1 := (if originalAnchor \<noteq> anchorA1 then Some anchorA1 else None),
            tu_allowResize := (if tg_allowResize originalTarget = None
                                  \<or> tg_allowResize originalTarget \<noteq> tg_allowResize tgt
                               then tg_allowResize tgt else None),
            tu_namedRange := (if tg_namedRange originalTarget \<noteq> tg_namedRange tgt
                              then Some (tg_namedRange tgt) else None)\<rparr>)"

definition empty_write :: "sheet \<Rightarrow> string \<Rightarrow> target_updates \<Rightarrow> write_result" where
  "empty_write s anchorA1 tu =
     \<lparr>wr_sheetId = show_nat (sh_id s), wr_sheetName = sh_name s, wr_rangeA1 = Cell anchorA1,
      wr_rows = 0, wr_cols = 0, wr_targetUpdates = updates_or_null tu\<rparr>"

text \<open>
  The part under \<open>// Write data\<close>: the values, the header format, the column resize and
  the named range. \<open>setValues\<close> of the host refuses data whose rows do not all have the
  width of the range.
\<close>

definition write_values ::
    "sheet \<Rightarrow> target \<Rightarrow> string \<Rightarrow> target_updates \<Rightarrow> string list list \<Rightarrow> world
      \<Rightarrow> (string + write_result) \<times> world" where
  "write_values s tgt anchorA1 tu data w =
     (case data of
        [] \<Rightarrow> (Inr (empty_write s anchorA1 tu), w)
      | r0 # _ \<Rightarrow>
          if r0 = [] then (Inr (empty_write s anchorA1 tu), w)
          else if \<not> list_all (\<lambda>r. length r = length r0) data
            then (Inl ''The number of columns in the data does not match the number of columns in the range.'', w)
          else
            (let rng = Block anchorA1 (length data) (length r0);
                 w4 = emit (SetValues (sh_id s) rng data) w;
                 w5 = (if anchor_row anchorA1 = 1 \<or> anchorA1 = ''A1''
                       then emit (FormatHeader (sh_id s) (Block anchorA1 1 (length r0))) w4
                       else w4);
                 w6 = (if tg_allowResize tgt = Some True
                       then resize_columns (sh_id s) anchorA1 (length r0) w5 else w5);
                 w7 = (if tg_namedRange tgt \<noteq> ''''
                       then w6\<lparr>w_named := (w_named w6)(tg_namedRange tgt \<mapsto> (sh_id s, rng))\<rparr>
                       else w6)
             in (Inr \<lparr>wr_sheetId = show_nat (sh_id s), wr_sheetName = sh_name s,
                      wr_rangeA1 = rng, wr_rows = length data, wr_cols = length r0,
                      wr_targetUpdates = updates_or_null tu\<rparr>, w7)))"

definition totalCells :: "string list list \<Rightarrow> nat" where
  "totalCells data = length data * (case data of [] \<Rightarrow> 0 | r0 # _ \<Rightarrow> length r0)"

definition over_limit :: "nat option \<Rightarrow> nat \<Rightarrow> bool" where
  "over_limit limit n = (case limit of None \<Rightarrow> False | Some h \<Rightarrow> n > h)"

definition limit_text :: "nat option \<Rightarrow> string" where
  "limit_text limit = (case limit of None \<Rightarrow> ''NaN'' | Some h \<Rightarrow> show_nat h)"

text \<open>
  The part from \<open>// Check data size limits\<close> on, entered after the sheet is resolved and
  the previous range cleared.
\<close>

definition check_and_write ::
    "sheet \<Rightarrow> target \<Rightarrow> string \<Rightarrow> target_updates \<Rightarrow> string list list \<Rightarrow> world
      \<Rightarrow> (string + write_result) \<times> world" where
  "check_and_write s tgt anchorA1 tu data w =
     (if over_limit (w_maxCellsHard w) (totalCells data)
      then (Inl (''Data exceeds hard limit of '' @ limit_text (w_maxCellsHard w)
                   @ '' cells ('' @ show_nat (totalCells data) @ '' cells)''), w)
      else write_values s tgt anchorA1 tu data
             (if over_limit (w_maxCellsWarning w) (totalCells data)
              then emit (ConsoleWarn ''Data exceeds warning limit'') w else w))"

text \<open>\<open>writeDataToSheet(dataset, data)\<close>\<close>

definition writeDataToSheet ::
    "nat \<Rightarrow> dataset \<Rightarrow> string list list \<Rightarrow> world \<Rightarrow> (string + write_result) \<times> world" where
  "writeDataToSheet new_sid dataset data w =
     (let originalTarget = (case ds_target dataset of None \<Rightarrow> empty_target | Some tg \<Rightarrow> tg);
          tgt = normalizeDatasetTarget originalTarget (ds_name dataset);
          anchorA1 = sanitizeAnchorCell (tg_anchorA1 tgt)
      in case resolve_sheet new_sid tgt (ds_name dataset) w of
           (s, tu1, w1) \<Rightarrow>
             check_and_write s tgt anchorA1 (target_changes originalTarget tgt anchorA1 tu1) data
               (clear_previous dataset s w1))"

section \<open>Job runner: runDataset\<close>

text \<open>
  What a run meets outside the engine: the job id \<open>Utilities.getUuid()\<close> returns, what
  \<open>runStandardReport\<close> and \<open>runCustomQuery\<close> return or throw (\<open>Inl\<close>), the id of a sheet
  the host would insert, the id of a trigger it would create, and the MD5 digest.
\<close>

record fetch_reply =
  fr_success :: bool
  fr_error :: string
  fr_report :: "report option"
  fr_entities :: "entity list option"

record run_env =
  re_jobId :: string
  re_report :: "string + fetch_reply"
  re_query :: "string + fetch_reply"
  re_new_sid :: nat
  re_tid :: string
  re_digest :: "string \<Rightarrow> string"

text \<open>Writing a job record; the write is also recorded as an event.\<close>

definition store_job :: "job \<Rightarrow> world \<Rightarrow> world" where
  "store_job j w =
     emit (JobStored (jb_id j) (jb_status j) (jb_progress j))
       (w\<lparr>w_jobs := (w_jobs w)(jb_id j \<mapsto> j)\<rparr>)"

definition updateJobProgress :: "string \<Rightarrow> nat \<Rightarrow> string \<Rightarrow> world \<Rightarrow> world" where
  "updateJobProgress jobId progress message w =
     (case w_jobs w jobId of
        None \<Rightarrow> w
      | Some j \<Rightarrow> store_job (j\<lparr>jb_progress := progress, jb_message := message\<rparr>) w)"

text \<open>\<open>headers.join('|')\<close>\<close>

fun join_bar :: "string list \<Rightarrow> string" where
  "join_bar [] = []"
| "join_bar [x] = x"
| "join_bar (x # y # ys) = x @ ''|'' @ join_bar (y # ys)"

definition generateSchemaHash :: "run_env \<Rightarrow> string list \<Rightarrow> string" where
  "generateSchemaHash env headers = re_digest env (join_bar headers)"

text \<open>
  The four steps both dataset types share once the payload is converted: progress 70,
  the write, progress 90 and the success log, with the result envelope. A failure passes
  through the \<open>catch\<close> that logs it and throws it again.
\<close>

definition write_and_finish ::
    "run_env \<Rightarrow> dataset \<Rightarrow> string \<Rightarrow> sheet_data \<Rightarrow> world \<Rightarrow> (string + run_result) \<times> world" where
  "write_and_finish env dataset jobId sheetData w =
     (let w1 = updateJobProgress jobId 70 ''Writing to spreadsheet...'' w
      in case writeDataToSheet (re_new_sid env) dataset (sd_data sheetData) w1 of
           (Inl err, w2) \<Rightarrow> (Inl err, logAction ''run_dataset'' w2)
         | (Inr writeResult, w2) \<Rightarrow>
             (let w3 = logAction ''run_dataset'' (updateJobProgress jobId 90 ''Finalizing...'' w2)
              in (Inr \<lparr>rr_lastWrite =
                         \<lparr>lw_rows = sd_rows sheetData, lw_cols = sd_cols sheetData,
                          lw_sheetId = wr_sheetId writeResult,
                          lw_sheetName = wr_sheetName writeResult,
                          lw_rangeA1 = Some (wr_rangeA1 writeResult),
                          lw_schemaHash = generateSchemaHash env
                            (case sd_data sheetData of [] \<Rightarrow> [] | h # _ \<Rightarrow> h)\<rparr>,
                       rr_targetUpdates = wr_targetUpdates writeResult\<rparr>, w3)))"

definition runStandardReportDataset ::
    "run_env \<Rightarrow> dataset \<Rightarrow> string \<Rightarrow> world \<Rightarrow> (string + run_result) \<times> world" where
  "runStandardReportDataset env dataset jobId w =
     (let w1 = updateJobProgress jobId 20 ''Fetching report from QuickBooks...'' w
      in case ds_params dataset of
           None \<Rightarrow> (Inl ''TypeError: Cannot read properties of undefined'', w1)
         | Some p \<Rightarrow>
            (case re_report env of
               Inl err \<Rightarrow> (Inl err, logAction ''run_dataset'' w1)
             | Inr reportResult \<Rightarrow>
                 if \<not> fr_success reportResult
                 then (Inl (or_else (fr_error reportResult) ''Failed to fetch report''),
                       logAction ''run_dataset'' w1)
                 else write_and_finish env dataset jobId
                        (convertReportToSheetData (fr_report reportResult))
                        (updateJobProgress jobId 50 ''Processing report data...'' w1)))"

definition runQueryDataset ::
    "run_env \<Rightarrow> dataset \<Rightarrow> string \<Rightarrow> world \<Rightarrow> (string + run_result) \<times> world" where
  "runQueryDataset env dataset jobId w =
     (let w1 = updateJobProgress jobId 20 ''Executing query...'' w
      in case ds_params dataset of
           None \<Rightarrow> (Inl ''TypeError: Cannot read properties of undefined'',
                     logAction ''run_dataset'' w1)
         | Some p \<Rightarrow>
            (case re_query env of
               Inl err \<Rightarrow> (Inl err, logAction ''run_dataset'' w1)
             | Inr queryResult \<Rightarrow>
                 if \<not> fr_success queryResult
                 then (Inl (or_else (fr_error queryResult) ''Failed to execute query''),
                       logAction ''run_dataset'' w1)
                 else write_and_finish env dataset jobId
                        (convertEntitiesToSheetData (fr_entities queryResult))
                        (updateJobProgress jobId 50 ''Processing query results...'' w1)))"

definition apply_target_updates :: "target \<Rightarrow> target_updates \<Rightarrow> target" where
  "apply_target_updates tg tu =
     tg\<lparr>tg_sheetId := (case tu_sheetId tu of None \<Rightarrow> tg_sheetId tg | Some v \<Rightarrow> v),
        tg_sheetName := (case tu_sheetName tu of None \<Rightarrow> tg_sheetName tg | Some v \<Rightarrow> v),
        tg_anchorA1 := (case tu_anchorA1 tu of None \<Rightarrow> tg_anchorA1 tg | Some v \<Rightarrow> v),
        tg_allowResize := (case tu_allowResize tu of None \<Rightarrow> tg_allowResize tg | Some v \<Rightarrow> Some v),
        tg_namedRange := (case tu_namedRange tu of None \<Rightarrow> tg_namedRange tg | Some v \<Rightarrow> v)\<rparr>"

text \<open>The \<open>catch\<close> of \<open>runDataset\<close>: the job is stored as failed and the error thrown again.\<close>

definition fail_job :: "job \<Rightarrow> string \<Rightarrow> world \<Rightarrow> (string + job) \<times> world" where
  "fail_job j err w =
     (Inl err,
      store_job (j\<lparr>jb_status := Failed, jb_error := Some (''Error: '' @ err),
                   jb_message := ''Dataset run failed: Error: '' @ err\<rparr>) w)"

definition runDataset :: "run_env \<Rightarrow> string \<Rightarrow> world \<Rightarrow> (string + job) \<times> world" where
  "runDataset env datasetId w =
     (case getDatasetById datasetId w of
        None \<Rightarrow> (Inl ''Dataset not found'', w)
      | Some dataset \<Rightarrow>
         (let jobId = re_jobId env;
              job0 = \<lparr>jb_id = jobId, jb_datasetId = datasetId, jb_status = Running,
                      jb_progress = 0, jb_message = ''Initializing...'', jb_error = None,
                      jb_result = None\<rparr>;
              w1 = store_job job0 w;
              w2 = updateJobProgress jobId 10 ''Connecting to QuickBooks...'' w1;
              executed =
                (if ds_type dataset = ''standard'' then runStandardReportDataset env dataset jobId w2
                 else if ds_type dataset = ''query'' then runQueryDataset env dataset jobId w2
                 else (Inl (''Unknown dataset type: '' @ ds_type dataset), w2))
          in case executed of
               (Inl err, w3) \<Rightarrow> fail_job job0 err w3
             | (Inr result, w3) \<Rightarrow>
                 (let job1 = job0\<lparr>jb_status := Completed, jb_progress := 100,
                                  jb_message := ''Dataset run completed successfully'',
                                  jb_result := Some result\<rparr>;
                      w4 = store_job job1 w3;
                      updates = \<lparr>up_lastWrite = Some (rr_lastWrite result),
                                 up_target =
                                   (case rr_targetUpdates result of
                                      None \<Rightarrow> None
                                    | Some tu \<Rightarrow> Some (apply_target_updates
                                        (case ds_target dataset of
                                           None \<Rightarrow> empty_target | Some tg \<Rightarrow> tg) tu)),
                                 up_schedule = None\<rparr>
                  in case updateDataset (re_tid env) datasetId updates w4 of
                       (Inl err, w5) \<Rightarrow> fail_job job1 err w5
                     | (Inr _, w5) \<Rightarrow> (Inr job1, w5))))"

section \<open>Scheduler: scheduledDatasetRun\<close>

text \<open>
  \<open>tryLock(timeoutInMillis)\<close> succeeds unless another execution holds the lock; it gives up
  after waiting for the time-out.
\<close>

definition tryLock :: "nat \<Rightarrow> world \<Rightarrow> bool \<times> world" where
  "tryLock timeoutInMillis w =
     (if w_lock w = Another then (False, w\<lparr>w_now := w_now w + timeoutInMillis\<rparr>)
      else (True, w\<lparr>w_lock := Self\<rparr>))"

definition releaseLock :: "world \<Rightarrow> world" where
  "releaseLock w = (if w_lock w = Self then w\<lparr>w_lock := Free\<rparr> else w)"

text \<open>\<open>notifyScheduleError\<close>: with notifications switched on, one more log entry.\<close>

definition notifyScheduleError :: "string \<Rightarrow> world \<Rightarrow> world" where
  "notifyScheduleError datasetId w =
     (case getDatasetById datasetId w of
        None \<Rightarrow> w
      | Some dataset \<Rightarrow>
          if \<not> w_notifications w then w
          else logAction ''schedule_error_notification'' w)"

text \<open>
  \<open>scheduledDatasetRun(e)\<close>; the argument is \<open>e.triggerUid\<close>, \<open>None\<close> when the event has
  none. The handler returns nothing and lets no error out.
\<close>

definition scheduledDatasetRun :: "run_env \<Rightarrow> string option \<Rightarrow> world \<Rightarrow> world" where
  "scheduledDatasetRun env triggerUid w =
     (case triggerUid of
        None \<Rightarrow> emit (ConsoleError ''No trigger ID in event'') w
      | Some triggerId \<Rightarrow>
         if triggerId = '''' then emit (ConsoleError ''No trigger ID in event'') w
         else
          (case w_dataset_of w triggerId of
             None \<Rightarrow> emit (ConsoleError ''No dataset ID found for trigger:'') w
           | Some datasetId \<Rightarrow>
              if datasetId = '''' then emit (ConsoleError ''No dataset ID found for trigger:'') w
              else
               (case getDatasetById datasetId w of
                  None \<Rightarrow>
                    snd (removeScheduleTrigger datasetId (emit (ConsoleError ''Dataset not found:'') w))
                | Some dataset \<Rightarrow>
                    if (case ds_schedule dataset of None \<Rightarrow> True | Some s \<Rightarrow> \<not> sc_enabled s)
                    then snd (removeScheduleTrigger datasetId w)
                    else
                      (case tryLock 10000 w of
                         (False, w1) \<Rightarrow> logAction ''scheduled_run_skipped'' w1
                       | (True, w1) \<Rightarrow>
                           (case runDataset env datasetId (logAction ''scheduled_run_start'' w1) of
                              (Inr jobResult, w2) \<Rightarrow>
                                releaseLock (logAction ''scheduled_run_complete'' w2)
                            | (Inl err, w2) \<Rightarrow>
                                notifyScheduleError datasetId
                                  (logAction ''scheduled_run_error''
                                     (emit (ConsoleError ''Error in scheduled dataset run:'')
                                        (releaseLock w2))))))))"

section \<open>Worked examples\<close>

text \<open>
  The dataset \<open>customers_dataset\<close> as the registry stores it once it has been written to
  the sheet with id 7, with its schedule switched on or off and the record of its last write.
\<close>

definition customers_target :: target where
  "customers_target = \<lparr>tg_sheetId = ''7'', tg_sheetName = ''Customers'', tg_anchorA1 = ''A1'',
                        tg_allowResize = Some True, tg_namedRange = ''''\<rparr>"

definition stored_customers :: "bool \<Rightarrow> last_write option \<Rightarrow> dataset" where
  "stored_customers enabled lw =
     customers_dataset\<lparr>
       ds_target := Some customers_target,
       ds_schedule := Some \<lparr>sc_enabled = enabled, sc_freq = ''daily'', sc_timeOfDay = ''09:00''\<rparr>,
       ds_lastWrite := lw, ds_version := 1\<rparr>"

definition two_rows_written :: last_write where
  "two_rows_written =
     \<lparr>lw_rows = 2, lw_cols = 1, lw_sheetId = ''7'', lw_sheetName = ''Customers'',
      lw_rangeA1 = Some (Block ''A1'' 2 1), lw_schemaHash = ''Id''\<rparr>"

text \<open>A document whose sheet 7 has the given name, with one stored dataset.\<close>

definition book :: "string \<Rightarrow> dataset \<Rightarrow> world" where
  "book sheetName d =
     fresh_world\<lparr>w_datasets := [''a1'' \<mapsto> d], w_index := Some [''a1''],
                 w_sheets := [\<lparr>sh_id = 7, sh_name = sheetName\<rparr>]\<rparr>"


text \<open>The trigger \<open>t1\<close> with the mapping \<open>trigger_t1\<close> only: \<open>QBO_Dataset_a1\<close> is not set.\<close>

definition with_reverse_mapping :: "world \<Rightarrow> world" where
  "with_reverse_mapping w = w\<lparr>w_dataset_of := [''t1'' \<mapsto> ''a1''], w_triggers := [''t1'']\<rparr>"

text \<open>A run whose query gets the given answer.\<close>

definition env_of :: "string + fetch_reply \<Rightarrow> run_env" where
  "env_of answer =
     \<lparr>re_jobId = ''j1'', re_report = Inl ''Error: offline'', re_query = answer, re_new_sid = 8,
      re_tid = ''t2'', re_digest = (\<lambda>s. s)\<rparr>"

definition two_customers :: "string + fetch_reply" where
  "two_customers =
     Inr \<lparr>fr_success = True, fr_error = '''', fr_report = None,
          fr_entities = Some [customer ''1'', customer ''2'']\<rparr>"

definition three_cells :: "string list list" where
  "three_cells = [[''Id''], [''1''], [''2'']]"

text \<open>The job records written so far, in order: status and progress.\<close>

definition job_trail :: "world \<Rightarrow> (job_status \<times> nat) list" where
  "job_trail w =
     concat (map (\<lambda>e. case e of JobStored _ st p \<Rightarrow> [(st, p)] | _ \<Rightarrow> []) (w_events w))"

text \<open>
  The events a call of \<open>logAction\<close> that flushes the given queue can add: the log line, the
  sheet for the logs with its header row, the rows of the queue, a caught failure.
\<close>

definition logger_event :: "string list \<Rightarrow> event \<Rightarrow> bool" where
  "logger_event queue e =
     (case e of
        Log _ \<Rightarrow> True
      | ConsoleError _ \<Rightarrow> True
      | InsertSheet name \<Rightarrow> name = LOGS_SHEET_NAME
      | SetValues _ _ written \<Rightarrow> written = [LOG_HEADERS] \<or> written = map log_row queue
      | FormatHeader _ _ \<Rightarrow> True
      | _ \<Rightarrow> False)"


text \<open>
  The two id mappings of the scheduler agree: a trigger id that leads to a dataset is not
  empty, and the dataset leads back to that trigger.
\<close>

definition trigger_pairing :: "world \<Rightarrow> bool" where
  "trigger_pairing w =
     (\<forall>t d. w_dataset_of w t = Some d \<longrightarrow> t \<noteq> '''' \<and> w_trigger_of w d = Some t)"

section \<open>Theorems\<close>

lemma widen_ge: "c \<le> widen r c"
  by (cases r) auto

lemma fold_widen_mono: "c \<le> fold widen t c"
proof (induction t arbitrary: c)
  case Nil
  then show ?case by simp
next
  case (Cons r t)
  have "c \<le> widen r c" by (rule widen_ge)
  also have "\<dots> \<le> fold widen t (widen r c)" by (rule Cons.IH)
  finally show ?case by simp
qed

lemma fold_widen_bound: "r \<in> set t \<Longrightarrow> length (row_cells r) \<le> fold widen t c"
proof (induction t arbitrary: c)
  case Nil
  then show ?case by simp
next
  case (Cons a t)
  show ?case
  proof (cases "r = a")
    case True
    have "length (row_cells a) \<le> widen a c" by (cases a) auto
    also have "\<dots> \<le> fold widen t (widen a c)" by (rule fold_widen_mono)
    finally show ?thesis using True by simp
  next
    case False
    with Cons.prems have "r \<in> set t" by simp
    then show ?thesis using Cons.IH by simp
  qed
qed

lemma length_pad_row: "length (pad_row w cs) = w"
  by (simp add: pad_row_def)

lemma pad_row_keeps: "length cs \<le> w \<Longrightarrow> take (length cs) (pad_row w cs) = cs"
  by (simp add: pad_row_def)

subsection \<open>Rectangular tables\<close>

lemma fold_widen_Max:
  "fold widen t c = Max (insert c (set (map (\<lambda>r. length (row_cells r)) t)))"
proof (induction t arbitrary: c)
  case Nil
  then show ?case by simp
next
  case (Cons a t)
  have w: "widen a c = max c (length (row_cells a))" by (cases a) auto
  let ?L = "set (map (\<lambda>r. length (row_cells r)) t)"
  have "fold widen (a # t) c = Max (insert (max c (length (row_cells a))) ?L)"
    using Cons.IH [of "widen a c"] w by simp
  also have "\<dots> = Max (insert c (insert (length (row_cells a)) ?L))"
  proof (cases "?L = {}")
    case True
    then show ?thesis by (simp add: max_def)
  next
    case False
    then show ?thesis by (simp add: max.assoc)
  qed
  finally show ?case by simp
qed

lemma normalizeTable_vals_width:
  "r \<in> set (vals (normalizeTable t)) \<Longrightarrow> length r = cols (normalizeTable t)"
  by (auto simp: normalizeTable_def Let_def length_pad_row split: option.splits list.splits)

lemma normalizeTable_rows: "rows (normalizeTable t) = length (vals (normalizeTable t))"
  by (auto simp: normalizeTable_def Let_def split: option.splits list.splits)

lemma normalizeTable_cols:
  "tb \<noteq> [] \<Longrightarrow> cols (normalizeTable (Some tb)) =
     max 1 (Max (insert 0 (set (map (\<lambda>r. length (row_cells r)) tb))))"
proof -
  assume ne: "tb \<noteq> []"
  have "longest tb = Max (insert 0 (set (map (\<lambda>r. length (row_cells r)) tb)))"
    unfolding longest_def by (rule fold_widen_Max)
  moreover have "cols (normalizeTable (Some tb)) = max 1 (longest tb)"
    using ne by (cases tb) (simp_all add: normalizeTable_def Let_def)
  ultimately show ?thesis by simp
qed

lemma entities_rows_width:
  "r \<in> set (sd_data (convertEntitiesToSheetData es)) \<Longrightarrow>
     length r = sd_cols (convertEntitiesToSheetData es)"
  by (auto simp: convertEntitiesToSheetData_def Let_def entity_row_def
      split: option.splits list.splits)

lemma flat_row_width: "flat_row n a \<Longrightarrow> x \<in> set (processReportRow 0 a) \<Longrightarrow> length x = n"
  by (cases a) (auto simp: flat_row_def split: option.splits if_splits)

lemma flat_rows_width:
  "list_all (flat_row n) rr \<Longrightarrow> x \<in> set (processReportRows rr 0) \<Longrightarrow> length x = n"
  by (auto simp: processReportRows_def list_all_iff dest: flat_row_width)

lemma report_rows_width:
  assumes "flat_report n rep" and "r \<in> set (sd_data (convertReportToSheetData (Some rep)))"
  shows "length r = n"
proof -
  obtain cs where cs: "Columns rep = Some cs" "length cs = n"
    using assms(1) by (auto simp: flat_report_def split: option.splits)
  show ?thesis
  proof (cases "Rows rep")
    case None
    with assms(2) cs show ?thesis by (simp add: convertReportToSheetData_def)
  next
    case (Some rr)
    with assms(1) have "list_all (flat_row n) rr" by (simp add: flat_report_def cs)
    with assms(2) cs Some show ?thesis
      by (auto simp: convertReportToSheetData_def dest: flat_rows_width)
  qed
qed

lemma report_cols:
  assumes "flat_report n rep"
  shows "sd_cols (convertReportToSheetData (Some rep)) = n"
proof -
  obtain cs where cs: "Columns rep = Some cs" "length cs = n"
    using assms(1) by (auto simp: flat_report_def split: option.splits)
  then show ?thesis by (simp add: convertReportToSheetData_def)
qed

text \<open>
  What holds of the transform step. \<open>normalizeTable_\<close> returns a rectangular table: every row
  has the width \<open>cols\<close>, \<open>rows\<close> counts the rows, and for a non-empty table \<open>cols\<close> is
  \<open>max(1, longest row)\<close>. \<open>convertEntitiesToSheetData\<close> emits a header row and data rows
  that all have \<open>cols\<close> cells. For a flat report (top-level \<open>Data\<close> rows carrying one cell
  per column) the header row and the data rows of \<open>convertReportToSheetData\<close> have equal
  length.
\<close>

theorem transform_rectangular:
  "(\<forall>r \<in> set (vals (normalizeTable t)). length r = cols (normalizeTable t)) \<and>
   rows (normalizeTable t) = length (vals (normalizeTable t)) \<and>
   (tb \<noteq> [] \<longrightarrow> cols (normalizeTable (Some tb)) =
      max 1 (Max (insert 0 (set (map (\<lambda>r. length (row_cells r)) tb))))) \<and>
   (\<forall>r \<in> set (sd_data (convertEntitiesToSheetData es)).
      length r = sd_cols (convertEntitiesToSheetData es)) \<and>
   (flat_report n rep \<longrightarrow>
      (\<forall>r \<in> set (sd_data (convertReportToSheetData (Some rep))).
         length r = sd_cols (convertReportToSheetData (Some rep))))"
  using normalizeTable_vals_width normalizeTable_rows normalizeTable_cols
    entities_rows_width report_rows_width report_cols
  by (intro conjI ballI impI) simp_all

theorem transform_rectangular_witness:
  "vals (normalizeTable (Some [Row [''a''], NotRow, Row [''b'', ''c'']]))
     = [[''a'', ''''], ['''', ''''], [''b'', ''c'']] \<and>
   cols (normalizeTable (Some [Row [''a''], NotRow, Row [''b'', ''c'']])) = 2 \<and>
   sd_data (convertEntitiesToSheetData
      (Some [[(''Id'', JPrim ''1''), (''Name'', JPrim ''Ann'')], [(''Id'', JPrim ''2'')]]))
     = [[''Id'', ''Name''], [''1'', ''Ann''], [''2'', '''']] \<and>
   flat_report 2 \<lparr>Columns = Some [\<lparr>ColTitle = ''Account'', ColType = ''Account''\<rparr>,
                                  \<lparr>ColTitle = '''', ColType = ''Money''\<rparr>],
                  Rows = Some [ReportRow ''Data'' None [] None (Some [''Sales'', ''100.00''])]\<rparr> \<and>
   list_all (\<lambda>r. length r = 2)
     (sd_data (convertReportToSheetData (Some
        \<lparr>Columns = Some [\<lparr>ColTitle = ''Account'', ColType = ''Account''\<rparr>,
                          \<lparr>ColTitle = '''', ColType = ''Money''\<rparr>],
         Rows = Some [ReportRow ''Data'' None [] None (Some [''Sales'', ''100.00''])]\<rparr>)))"
  using transform_rectangular [of "Some [Row [''a''], NotRow, Row [''b'', ''c'']]"
      "[Row [''a''], NotRow, Row [''b'', ''c'']]"
      "Some [[(''Id'', JPrim ''1''), (''Name'', JPrim ''Ann'')], [(''Id'', JPrim ''2'')]]"
      2
      "\<lparr>Columns = Some [\<lparr>ColTitle = ''Account'', ColType = ''Account''\<rparr>,
                        \<lparr>ColTitle = '''', ColType = ''Money''\<rparr>],
        Rows = Some [ReportRow ''Data'' None [] None (Some [''Sales'', ''100.00''])]\<rparr>"]
  by (simp add: normalizeTable_def longest_def pad_row_def convertEntitiesToSheetData_def
      entity_row_def flat_report_def flat_row_def convertReportToSheetData_def
      processReportRows_def column_title_def)

text \<open>
  C9. The report conversion does not produce a rectangular table for a report with a
  section: a profit-and-loss shaped payload, two columns and one section holding one data
  row, every \<open>ColData\<close> with two cells. \<open>processReportRows\<close> puts an extra empty cell in front
  of the data row nested in the section, so that row comes out with three cells under a
  header row of two, and the writer, which sizes the range by the header row, refuses the
  table.
\<close>

theorem report_conversion_ragged:
  "sd_data (convertReportToSheetData (Some
      \<lparr>Columns = Some [\<lparr>ColTitle = ''Account'', ColType = ''Account''\<rparr>,
                        \<lparr>ColTitle = ''Total'', ColType = ''Money''\<rparr>],
       Rows = Some [ReportRow ''Section'' (Some [''Income'', ''''])
                      [ReportRow ''Data'' None [] None (Some [''Sales'', ''100.00''])]
                      (Some [''Total Income'', ''100.00'']) None]\<rparr>))
     = [[''Account'', ''Total''], [''Income'', ''''], ['''', ''Sales'', ''100.00''],
        [''Total Income'', ''100.00'']] \<and>
   \<not> rectangular (sd_data (convertReportToSheetData (Some
      \<lparr>Columns = Some [\<lparr>ColTitle = ''Account'', ColType = ''Account''\<rparr>,
                        \<lparr>ColTitle = ''Total'', ColType = ''Money''\<rparr>],
       Rows = Some [ReportRow ''Section'' (Some [''Income'', ''''])
                      [ReportRow ''Data'' None [] None (Some [''Sales'', ''100.00''])]
                      (Some [''Total Income'', ''100.00'']) None]\<rparr>))) \<and>
   fst (write_values \<lparr>sh_id = 7, sh_name = ''Customers''\<rparr> customers_target ''A1'' no_updates
      (sd_data (convertReportToSheetData (Some
        \<lparr>Columns = Some [\<lparr>ColTitle = ''Account'', ColType = ''Account''\<rparr>,
                          \<lparr>ColTitle = ''Total'', ColType = ''Money''\<rparr>],
         Rows = Some [ReportRow ''Section'' (Some [''Income'', ''''])
                        [ReportRow ''Data'' None [] None (Some [''Sales'', ''100.00''])]
                        (Some [''Total Income'', ''100.00'']) None]\<rparr>)))
      fresh_world)
     = Inl ''The number of columns in the data does not match the number of columns in the range.''"
  by (simp add: convertReportToSheetData_def processReportRows_def rectangular_def
      column_title_def write_values_def)

subsection \<open>What the logger leaves alone\<close>

lemma initializeLogsSheet_frame:
  "w_index (snd (initializeLogsSheet w)) = w_index w"
  "w_datasets (snd (initializeLogsSheet w)) = w_datasets w"
  "w_jobs (snd (initializeLogsSheet w)) = w_jobs w"
  "w_trigger_of (snd (initializeLogsSheet w)) = w_trigger_of w"
  "w_dataset_of (snd (initializeLogsSheet w)) = w_dataset_of w"
  "w_triggers (snd (initializeLogsSheet w)) = w_triggers w"
  "w_lock (snd (initializeLogsSheet w)) = w_lock w"
  "w_maxCellsWarning (snd (initializeLogsSheet w)) = w_maxCellsWarning w"
  "w_maxCellsHard (snd (initializeLogsSheet w)) = w_maxCellsHard w"
  "w_logQueue (snd (initializeLogsSheet w)) = w_logQueue w"
  "w_now (snd (initializeLogsSheet w)) = w_now w"
  by (simp_all add: initializeLogsSheet_def Let_def emit_def split: option.splits)

lemma rotateLogsSheet_frame:
  "w_index (rotateLogsSheet s w) = w_index w"
  "w_datasets (rotateLogsSheet s w) = w_datasets w"
  "w_jobs (rotateLogsSheet s w) = w_jobs w"
  "w_trigger_of (rotateLogsSheet s w) = w_trigger_of w"
  "w_dataset_of (rotateLogsSheet s w) = w_dataset_of w"
  "w_triggers (rotateLogsSheet s w) = w_triggers w"
  "w_lock (rotateLogsSheet s w) = w_lock w"
  "w_maxCellsWarning (rotateLogsSheet s w) = w_maxCellsWarning w"
  "w_maxCellsHard (rotateLogsSheet s w) = w_maxCellsHard w"
  "w_logQueue (rotateLogsSheet s w) = w_logQueue w"
  "w_now (rotateLogsSheet s w) = w_now w"
  by (simp_all add: rotateLogsSheet_def Let_def emit_def initializeLogsSheet_frame)

lemma flushLogQueue_frame:
  "w_index (flushLogQueue w) = w_index w"
  "w_datasets (flushLogQueue w) = w_datasets w"
  "w_jobs (flushLogQueue w) = w_jobs w"
  "w_trigger_of (flushLogQueue w) = w_trigger_of w"
  "w_dataset_of (flushLogQueue w) = w_dataset_of w"
  "w_triggers (flushLogQueue w) = w_triggers w"
  "w_lock (flushLogQueue w) = w_lock w"
  "w_maxCellsWarning (flushLogQueue w) = w_maxCellsWarning w"
  "w_maxCellsHard (flushLogQueue w) = w_maxCellsHard w"
  "w_now (flushLogQueue w) = w_now w"
  by (simp_all add: flushLogQueue_def Let_def emit_def initializeLogsSheet_frame
      rotateLogsSheet_frame split: option.splits)

lemma logAction_frame:
  "w_index (logAction a w) = w_index w"
  "w_datasets (logAction a w) = w_datasets w"
  "w_jobs (logAction a w) = w_jobs w"
  "w_trigger_of (logAction a w) = w_trigger_of w"
  "w_dataset_of (logAction a w) = w_dataset_of w"
  "w_triggers (logAction a w) = w_triggers w"
  "w_lock (logAction a w) = w_lock w"
  "w_maxCellsWarning (logAction a w) = w_maxCellsWarning w"
  "w_maxCellsHard (logAction a w) = w_maxCellsHard w"
  "w_now (logAction a w) = w_now w"
  by (simp_all add: logAction_def Let_def addToLogQueue_def emit_def flushLogQueue_frame)

text \<open>A call of \<open>logAction\<close> that does not flush only queues the entry.\<close>

lemma logAction_quiet:
  assumes "Suc (length (w_logQueue w)) < LOG_BATCH_SIZE"
    and "w_now w - w_lastFlushTime w \<le> LOG_BATCH_FLUSH_INTERVAL"
  shows "logAction a w = addToLogQueue a (emit (Log a) w)"
  using assms by (simp add: logAction_def Let_def addToLogQueue_def emit_def)

subsection \<open>The datasets index\<close>

lemma index_ids_update:
  "index_ids (updateDatasetsIndex i a w) =
     (if a = ''add'' then (if i \<in> set (index_ids w) then index_ids w else index_ids w @ [i])
      else if a = ''remove'' then filter (\<lambda>j. j \<noteq> i) (index_ids w)
      else index_ids w)"
  by (cases "w_index w") (simp_all add: updateDatasetsIndex_def index_ids_def Let_def)

lemma datasets_update_index:
  "w_datasets (updateDatasetsIndex i a w) = w_datasets w"
  by (simp add: updateDatasetsIndex_def Let_def)

lemma distinct_update_index:
  "distinct (index_ids w) \<Longrightarrow> distinct (index_ids (updateDatasetsIndex i a w))"
  by (simp add: index_ids_update)

lemma removeScheduleTrigger_frame:
  "w_index (snd (removeScheduleTrigger i w)) = w_index w"
  "w_datasets (snd (removeScheduleTrigger i w)) = w_datasets w"
  by (simp_all add: removeScheduleTrigger_def Let_def logAction_frame emit_def
      split: option.splits)


lemma index_ids_cong: "w_index w = w_index w' \<Longrightarrow> index_ids w = index_ids w'"
  by (simp add: index_ids_def)

lemma createDataset_world:
  "snd (createDataset u d w) = w \<or>
   (\<exists>d2. snd (createDataset u d w) =
      logAction ''create_dataset''
        (updateDatasetsIndex (ds_id d2) ''add'' (w\<lparr>w_datasets := (w_datasets w)(ds_id d2 \<mapsto> d2)\<rparr>)))"
proof -
  define d1 where "d1 = d\<lparr>ds_target := Some (normalizeDatasetTarget
         (case ds_target d of None \<Rightarrow> empty_target | Some tg \<Rightarrow> tg) (ds_name d))\<rparr>"
  define d2 where "d2 = d1\<lparr>ds_id := (if ds_id d1 = '''' then u else ds_id d1),
                     ds_version := 1,
                     ds_schedule := (case ds_schedule d1 of
                                       None \<Rightarrow> Some default_schedule | Some s \<Rightarrow> Some s)\<rparr>"
  have eq: "createDataset u d w =
      (case validateDataset d1 of
        Some err \<Rightarrow> (Inl err, w)
      | None \<Rightarrow> (Inr d2, logAction ''create_dataset''
           (updateDatasetsIndex (ds_id d2) ''add''
              (w\<lparr>w_datasets := (w_datasets w)(ds_id d2 \<mapsto> d2)\<rparr>))))"
    unfolding createDataset_def Let_def d1_def d2_def ..
  show ?thesis
  proof (cases "validateDataset d1")
    case None
    then have "snd (createDataset u d w) = logAction ''create_dataset''
           (updateDatasetsIndex (ds_id d2) ''add''
              (w\<lparr>w_datasets := (w_datasets w)(ds_id d2 \<mapsto> d2)\<rparr>))"
      by (simp add: eq)
    then show ?thesis by blast
  next
    case (Some e)
    then have "snd (createDataset u d w) = w" by (simp add: eq)
    then show ?thesis by simp
  qed
qed

lemma inv_store_step:
  assumes "registry_inv w"
  shows "registry_inv (logAction a
           (updateDatasetsIndex (ds_id d2) ''add'' (w\<lparr>w_datasets := (w_datasets w)(ds_id d2 \<mapsto> d2)\<rparr>)))"
proof -
  define w1 where "w1 = w\<lparr>w_datasets := (w_datasets w)(ds_id d2 \<mapsto> d2)\<rparr>"
  have ids: "index_ids w1 = index_ids w" by (simp add: index_ids_def w1_def)
  have ds: "w_datasets w1 = (w_datasets w)(ds_id d2 \<mapsto> d2)" by (simp add: w1_def)
  from assms have dist: "distinct (index_ids w)"
    and keyed: "\<And>i d. w_datasets w i = Some d \<Longrightarrow> ds_id d = i"
    by (simp_all add: registry_inv_def)
  have "distinct (index_ids w1)" using dist ids by simp
  then have "distinct (index_ids (updateDatasetsIndex (ds_id d2) ''add'' w1))"
    by (rule distinct_update_index)
  moreover have "index_ids (logAction a (updateDatasetsIndex (ds_id d2) ''add'' w1))
      = index_ids (updateDatasetsIndex (ds_id d2) ''add'' w1)"
    by (rule index_ids_cong) (simp add: logAction_frame)
  moreover have "ds_id d = i"
    if "w_datasets (logAction a (updateDatasetsIndex (ds_id d2) ''add'' w1)) i = Some d" for i d
  proof -
    from that have "((w_datasets w)(ds_id d2 \<mapsto> d2)) i = Some d"
      by (simp add: logAction_frame datasets_update_index ds)
    then show ?thesis using keyed by (cases "i = ds_id d2") simp_all
  qed
  ultimately have "registry_inv (logAction a (updateDatasetsIndex (ds_id d2) ''add'' w1))"
    unfolding registry_inv_def by (intro conjI allI impI) simp_all
  then show ?thesis by (simp only: w1_def)
qed

lemma inv_create:
  assumes "registry_inv w"
  shows "registry_inv (snd (createDataset u d w))"
proof -
  from createDataset_world [of u d w] show ?thesis
  proof
    assume "snd (createDataset u d w) = w"
    with assms show ?thesis by simp
  next
    assume "\<exists>d2. snd (createDataset u d w) =
      logAction ''create_dataset''
        (updateDatasetsIndex (ds_id d2) ''add'' (w\<lparr>w_datasets := (w_datasets w)(ds_id d2 \<mapsto> d2)\<rparr>))"
    then obtain d2 where "snd (createDataset u d w) =
      logAction ''create_dataset''
        (updateDatasetsIndex (ds_id d2) ''add'' (w\<lparr>w_datasets := (w_datasets w)(ds_id d2 \<mapsto> d2)\<rparr>))"
      by blast
    with inv_store_step [OF assms, of "''create_dataset''" d2] show ?thesis by simp
  qed
qed

lemma inv_delete:
  assumes "registry_inv w"
  shows "registry_inv (snd (deleteDataset i w))"
proof (cases "getDatasetById i w")
  case None
  then show ?thesis using assms by (simp add: deleteDataset_def)
next
  case (Some dataset)
  define w1 where "w1 = (case ds_schedule dataset of None \<Rightarrow> w
      | Some s \<Rightarrow> if sc_enabled s then snd (removeScheduleTrigger i w) else w)"
  have f1: "w_index w1 = w_index w" "w_datasets w1 = w_datasets w"
    by (simp_all add: w1_def removeScheduleTrigger_frame split: option.splits)
  define w2 where "w2 = w1\<lparr>w_datasets := (w_datasets w1)(i := None)\<rparr>"
  have res: "snd (deleteDataset i w) = logAction ''delete_dataset'' (updateDatasetsIndex i ''remove'' w2)"
    using Some by (simp add: deleteDataset_def Let_def w1_def w2_def)
  from assms have dist: "distinct (index_ids w)"
    and keyed: "\<And>j d. w_datasets w j = Some d \<Longrightarrow> ds_id d = j"
    by (simp_all add: registry_inv_def)
  have "index_ids w2 = index_ids w" using f1 by (simp add: index_ids_def w2_def)
  then have "distinct (index_ids w2)" using dist by simp
  then have "distinct (index_ids (updateDatasetsIndex i ''remove'' w2))"
    by (rule distinct_update_index)
  moreover have "index_ids (logAction ''delete_dataset'' (updateDatasetsIndex i ''remove'' w2))
       = index_ids (updateDatasetsIndex i ''remove'' w2)"
    by (rule index_ids_cong) (simp add: logAction_frame)
  moreover have "ds_id d = j"
    if "w_datasets (logAction ''delete_dataset'' (updateDatasetsIndex i ''remove'' w2)) j = Some d"
    for j d
  proof -
    from that have "((w_datasets w)(i := None)) j = Some d"
      by (simp add: logAction_frame datasets_update_index w2_def f1)
    then have "w_datasets w j = Some d" by (cases "j = i") simp_all
    then show ?thesis by (rule keyed)
  qed
  ultimately have "registry_inv (logAction ''delete_dataset'' (updateDatasetsIndex i ''remove'' w2))"
    unfolding registry_inv_def by (intro conjI allI impI) simp_all
  then show ?thesis by (simp only: res)
qed

lemma inv_ops: "registry_inv w \<Longrightarrow> registry_inv (apply_ops ops w)"
  unfolding apply_ops_def
proof (induction ops arbitrary: w)
  case Nil
  then show ?case by simp
next
  case (Cons op ops)
  have "registry_inv (apply_op op w)"
    using Cons.prems by (cases op) (simp_all add: inv_create inv_delete)
  then show ?case using Cons.IH by simp
qed

lemma map_filter_ids:
  assumes "\<And>i d. m i = Some d \<Longrightarrow> ds_id d = i"
  shows "map ds_id (List.map_filter m ids) = filter (\<lambda>i. m i \<noteq> None) ids"
proof (induction ids)
  case Nil
  then show ?case by (simp add: List.map_filter_simps)
next
  case (Cons a ids)
  show ?case
  proof (cases "m a")
    case None
    then show ?thesis using Cons.IH by (simp add: List.map_filter_simps)
  next
    case (Some d)
    then have "ds_id d = a" by (rule assms)
    then show ?thesis using Some Cons.IH by (simp add: List.map_filter_simps)
  qed
qed

lemma getDatasets_distinct:
  assumes "registry_inv w"
  shows "distinct (map ds_id (getDatasets w))"
proof (cases "w_index w")
  case None
  then show ?thesis by (simp add: getDatasets_def)
next
  case (Some ids)
  from assms have dist: "distinct (index_ids w)"
    and keyed: "\<And>j d. w_datasets w j = Some d \<Longrightarrow> ds_id d = j"
    by (simp_all add: registry_inv_def)
  have "map ds_id (getDatasets w) = filter (\<lambda>i. w_datasets w i \<noteq> None) ids"
    using Some map_filter_ids [of "w_datasets w" ids] keyed by (simp add: getDatasets_def)
  moreover have "distinct ids" using dist Some by (simp add: index_ids_def)
  ultimately show ?thesis by simp
qed

text \<open>
  Claim C10. \<open>updateDatasetsIndex\<close> with \<open>'add'\<close> leaves the index as it is when the id is
  already there; with \<open>'remove'\<close> no occurrence of the id is left; whatever the action, an
  index without duplicates stays so. Hence after every sequence of \<open>createDataset\<close> and
  \<open>deleteDataset\<close> calls on a fresh store the index holds each id at most once, and
  \<open>getDatasets\<close> returns no dataset twice.
\<close>

theorem datasets_index_no_duplicates:
  "(i \<in> set (index_ids w) \<longrightarrow> index_ids (updateDatasetsIndex i ''add'' w) = index_ids w) \<and>
   i \<notin> set (index_ids (updateDatasetsIndex i ''remove'' w)) \<and>
   (distinct (index_ids w) \<longrightarrow> distinct (index_ids (updateDatasetsIndex i a w))) \<and>
   distinct (index_ids (apply_ops ops fresh_world)) \<and>
   distinct (map ds_id (getDatasets (apply_ops ops fresh_world))) \<and>
   distinct (getDatasets (apply_ops ops fresh_world))"
proof -
  have "registry_inv fresh_world" by (simp add: registry_inv_def fresh_world_def index_ids_def)
  then have inv: "registry_inv (apply_ops ops fresh_world)" by (rule inv_ops)
  then have d: "distinct (map ds_id (getDatasets (apply_ops ops fresh_world)))"
    by (rule getDatasets_distinct)
  then have d': "distinct (getDatasets (apply_ops ops fresh_world))" by (simp add: distinct_map)
  from inv have d0: "distinct (index_ids (apply_ops ops fresh_world))" by (simp add: registry_inv_def)
  have a: "i \<in> set (index_ids w) \<longrightarrow> index_ids (updateDatasetsIndex i ''add'' w) = index_ids w"
    by (simp add: index_ids_update)
  have b: "i \<notin> set (index_ids (updateDatasetsIndex i ''remove'' w))"
    by (simp add: index_ids_update)
  have c: "distinct (index_ids w) \<longrightarrow> distinct (index_ids (updateDatasetsIndex i a w))"
    by (simp add: distinct_update_index)
  from a b c d0 d d' show ?thesis by blast
qed

lemma customers_valid:
  "validateDataset (customers_dataset\<lparr>ds_target := Some (normalizeDatasetTarget
       (case ds_target customers_dataset of None \<Rightarrow> empty_target | Some tg \<Rightarrow> tg)
       (ds_name customers_dataset))\<rparr>) = None"
  by code_simp

lemma customers_id: "ds_id customers_dataset = ''a1''"
  by (simp add: customers_dataset_def)

lemma fresh_index: "index_ids fresh_world = []"
  by (simp add: fresh_world_def index_ids_def)

lemma index_ids_datasets_upd: "index_ids (w\<lparr>w_datasets := m\<rparr>) = index_ids w"
  by (simp add: index_ids_def)

lemma created_index:
  "index_ids (snd (createDataset u customers_dataset w)) =
     (if ''a1'' \<in> set (index_ids w) then index_ids w else index_ids w @ [''a1''])"
proof -
  have "index_ids (snd (createDataset u customers_dataset w)) =
        index_ids (updateDatasetsIndex ''a1'' ''add''
          (w\<lparr>w_datasets := (w_datasets w)(''a1'' \<mapsto>
             customers_dataset\<lparr>ds_target := Some (normalizeDatasetTarget
                 (case ds_target customers_dataset of None \<Rightarrow> empty_target | Some tg \<Rightarrow> tg)
                 (ds_name customers_dataset)),
               ds_id := ''a1'', ds_version := 1,
               ds_schedule := (case ds_schedule customers_dataset of
                   None \<Rightarrow> Some default_schedule | Some s \<Rightarrow> Some s)\<rparr>)\<rparr>))"
    by (simp add: createDataset_def Let_def customers_valid customers_id
        index_ids_cong [OF logAction_frame(1)])
  also have "\<dots> = (if ''a1'' \<in> set (index_ids w) then index_ids w else index_ids w @ [''a1''])"
    by (simp add: index_ids_update index_ids_datasets_upd)
  finally show ?thesis .
qed

lemma deleted_missing: "snd (deleteDataset i fresh_world) = fresh_world"
  by (simp add: deleteDataset_def getDatasetById_def fresh_world_def)

theorem datasets_index_no_duplicates_witness:
  "index_ids (apply_ops [Delete ''zz'', Create ''u1'' customers_dataset,
       Create ''u2'' customers_dataset] fresh_world) = [''a1''] \<and>
   distinct (map ds_id (getDatasets (apply_ops [Delete ''zz'', Create ''u1'' customers_dataset,
       Create ''u2'' customers_dataset] fresh_world)))"
proof -
  have e: "index_ids (apply_ops [Delete ''zz'', Create ''u1'' customers_dataset,
       Create ''u2'' customers_dataset] fresh_world) = [''a1'']"
    by (simp add: apply_ops_def created_index deleted_missing fresh_index)
  from datasets_index_no_duplicates [of "''a1''" fresh_world "''add''"
      "[Delete ''zz'', Create ''u1'' customers_dataset, Create ''u2'' customers_dataset]"]
  have "distinct (map ds_id (getDatasets (apply_ops [Delete ''zz'', Create ''u1'' customers_dataset,
       Create ''u2'' customers_dataset] fresh_world)))"
    by blast
  with e show ?thesis by (rule conjI)
qed


subsection \<open>Pagination\<close>






lemma step_stops:
  assumes "pg_status (qe_server env (Suc (ls_fetchedPages st)) (ls_currentStart st) ps) = 200"
    and "pg_body (qe_server env (Suc (ls_fetchedPages st)) (ls_currentStart st) ps) = Some qr"
    and "length (qr_entities qr) \<noteq> ps"
    and "\<forall>t. qr_totalCount qr = Some t \<longrightarrow>
           int t \<le> int (if qr_startPosition qr \<noteq> 0 then qr_startPosition qr
                          else ls_currentStart st) - 1 + int (length (qr_entities qr))"
  shows "\<exists>res. page_step env fa mp ps st = Inl res"
  using assms
  by (cases "qr_totalCount qr") (auto simp: page_step_def Let_def)









lemma customer_query_valid: "pq_valid (parseQuery_paged ''SELECT * FROM Customer'')"
  by code_simp





lemma single_page_run:
  "runCustomQuery (online (serve [customer ''1'', customer ''2'', customer ''3''] 1000 False))
      ''SELECT * FROM Customer'' 1 2 False 0
   = (Inr (QuerySuccess [customer ''1'', customer ''2''] 3 True (Some 3)),
      \<lparr>ls_currentStart = 1, ls_aggregated = [customer ''1'', customer ''2''],
       ls_totalCount = 3, ls_fetchedPages = 1, ls_requests = [(1, 2)],
       ls_pages = [(1, 1, 2)]\<rparr>)"
  by (simp add: runCustomQuery_def online_def customer_query_valid Let_def
      QBO_MAX_PAGE_SIZE_def page_loop.simps page_step_def serve_def)



subsection \<open>The entity allow-list\<close>

lemma foo_query_valid:
  "pq_valid (parseQuery_paged ''SELECT * FROM Foo'') \<and>
   pq_from (parseQuery_paged ''SELECT * FROM Foo'') = ''Foo''"
  by code_simp

lemma foo_unlisted: "''Foo'' \<notin> set QUERYABLE_ENTITIES"
  by (simp add: QUERYABLE_ENTITIES_def)

lemma foo_rejected_by_dataset_build: "\<not> pq_valid (parseQuery ''SELECT * FROM Foo'')"
  by code_simp

lemma parseQuery_rejects_unlisted:
  "from_match (squeeze (trim q)) = Some frm \<Longrightarrow> frm \<notin> set QUERYABLE_ENTITIES \<Longrightarrow>
     \<not> pq_valid (parseQuery q)"
  by (auto simp: parseQuery_def Let_def invalid_query_def split: option.splits)

lemma parseQuery_valid_listed:
  "pq_valid (parseQuery q) \<Longrightarrow> pq_from (parseQuery q) \<in> set QUERYABLE_ENTITIES"
  by (auto simp: parseQuery_def Let_def invalid_query_def split: option.splits if_splits)

lemma validateDataset_rejects_unlisted:
  "ds_type d = ''query'' \<Longrightarrow> ds_params d = Some p \<Longrightarrow> \<not> pq_valid (parseQuery (pr_query p)) \<Longrightarrow>
     validateDataset d \<noteq> None"
  by (simp add: validateDataset_def Let_def)

text \<open>
  Claim C8 at the query \<open>SELECT * FROM Foo\<close>. \<open>Foo\<close> is not in the allow-list, and the
  \<open>parseQuery\<close> of the dataset build rejects the query (as it rejects every query whose
  \<open>FROM\<close> target is unlisted, see \<open>parseQuery_rejects_unlisted\<close>). The \<open>parseQuery\<close> of the
  paginating client file accepts it with \<open>from = Foo\<close>, and its \<open>runCustomQuery\<close> sends the
  request.
\<close>

theorem unlisted_entity_reaches_network:
  "''Foo'' \<notin> set QUERYABLE_ENTITIES \<and>
   \<not> pq_valid (parseQuery ''SELECT * FROM Foo'') \<and>
   pq_valid (parseQuery_paged ''SELECT * FROM Foo'') \<and>
   pq_from (parseQuery_paged ''SELECT * FROM Foo'') = ''Foo'' \<and>
   ls_requests (snd (runCustomQuery (online (serve [] 1000 False))
      ''SELECT * FROM Foo'' 1 1000 False 0)) = [(1, 1000)]"
  using foo_query_valid foo_unlisted foo_rejected_by_dataset_build
  by (simp add: runCustomQuery_def online_def Let_def
      QBO_MAX_PAGE_SIZE_def page_loop.simps page_step_def serve_def)

subsection \<open>The API client\<close>

lemma fetch_step_final:
  assumes "fetch_step env a tr = Inl (r, tr')"
  shows "length (ft_requests tr') \<le> Suc (length (ft_requests tr)) \<and>
         ft_refreshes tr' = ft_refreshes tr \<and> ft_sleeps tr' = ft_sleeps tr \<and>
         ft_resets tr' = ft_resets tr + (if is_auth_expired r then 1 else 0)"
  using assms
  by (auto simp: fetch_step_def Let_def split: if_splits body.splits)

lemma fetch_step_next:
  assumes "fetch_step env a tr = Inr (a', tr')"
  shows "ft_requests tr' = ft_requests tr @ [att a] \<and> ft_resets tr' = ft_resets tr \<and>
         ((att a = 1 \<and> ft_refreshes tr' = ft_refreshes tr + 1 \<and> ft_sleeps tr' = ft_sleeps tr) \<or>
          (ft_refreshes tr' = ft_refreshes tr \<and>
           ft_sleeps tr' = ft_sleeps tr @ [(att a, waitMs env (att a))] \<and>
           retryable (hr_status (fe_respond env (att a))) \<and> att a < maxAttempts))"
  using assms
  by (auto simp: fetch_step_def Let_def att_def split: if_splits body.splits)

lemma waitMs_ok:
  "retryable (hr_status (fe_respond env k)) \<Longrightarrow> k < maxAttempts \<Longrightarrow> sleep_ok env (k, waitMs env k)"
  by (simp add: sleep_ok_def waitMs_def Let_def)


lemma fetch_step_att:
  assumes "fetch_step env a tr = Inr (a', tr')"
  shows "a' = Suc (att a)" and "a' \<le> maxAttempts" and "att a' = a'"
  using fetch_step_continues [OF assms] by (simp_all add: att_def)

lemma qboFetch_Inl: "fetch_step env a tr = Inl res \<Longrightarrow> qboFetch env a tr = res"
  by (simp add: qboFetch.simps)

lemma qboFetch_Inr:
  "fetch_step env a tr = Inr (a', tr') \<Longrightarrow> qboFetch env a tr = qboFetch env a' tr'"
  by (simp add: qboFetch.simps)

lemma qboFetch_requests:
  "att a \<le> maxAttempts \<Longrightarrow>
     length (ft_requests (snd (qboFetch env a tr))) + att a
       \<le> length (ft_requests tr) + Suc maxAttempts"
proof (induction env a tr rule: qboFetch.induct)
  case (1 env a tr)
  show ?case
  proof (cases "fetch_step env a tr")
    case (Inl res)
    obtain r tr' where res: "res = (r, tr')" by (cases res)
    from fetch_step_final [OF Inl [unfolded res]] "1.prems"
    show ?thesis by (simp add: qboFetch_Inl [OF Inl] res)
  next
    case (Inr nxt)
    obtain a' tr' where nxt: "nxt = (a', tr')" by (cases nxt)
    note step = Inr [unfolded nxt]
    from fetch_step_att [OF step] have a': "a' = Suc (att a)" "att a' \<le> maxAttempts" by simp_all
    note a'' = fetch_step_att(3) [OF step]
    from fetch_step_next [OF step] have len: "length (ft_requests tr') = Suc (length (ft_requests tr))"
      by simp
    from "1.IH" [OF Inr nxt [symmetric] a'(2)]
    have "length (ft_requests (snd (qboFetch env a' tr'))) + att a'
            \<le> length (ft_requests tr') + Suc maxAttempts" .
    with a' a'' len show ?thesis
      by (simp add: qboFetch_Inr [OF step])
  qed
qed

lemma qboFetch_refreshes:
  "ft_refreshes (snd (qboFetch env a tr)) \<le> ft_refreshes tr + (if att a = 1 then 1 else 0)"
proof (induction env a tr rule: qboFetch.induct)
  case (1 env a tr)
  show ?case
  proof (cases "fetch_step env a tr")
    case (Inl res)
    obtain r tr' where res: "res = (r, tr')" by (cases res)
    from fetch_step_final [OF Inl [unfolded res]]
    show ?thesis by (simp add: qboFetch_Inl [OF Inl] res)
  next
    case (Inr nxt)
    obtain a' tr' where nxt: "nxt = (a', tr')" by (cases nxt)
    note step = Inr [unfolded nxt]
    note a' = fetch_step_att(1,3) [OF step]
    have "1 \<le> att a" by (simp add: att_def)
    with a' have ne: "att a' \<noteq> 1" by simp
    from "1.IH" [OF Inr nxt [symmetric]] ne
    have ih: "ft_refreshes (snd (qboFetch env a' tr')) \<le> ft_refreshes tr'" by simp
    from fetch_step_next [OF step]
    have "ft_refreshes tr' \<le> ft_refreshes tr + (if att a = 1 then 1 else 0)" by auto
    with ih show ?thesis by (simp add: qboFetch_Inr [OF step])
  qed
qed

lemma qboFetch_resets:
  "ft_resets (snd (qboFetch env a tr))
     = ft_resets tr + (if is_auth_expired (fst (qboFetch env a tr)) then 1 else 0)"
proof (induction env a tr rule: qboFetch.induct)
  case (1 env a tr)
  show ?case
  proof (cases "fetch_step env a tr")
    case (Inl res)
    obtain r tr' where res: "res = (r, tr')" by (cases res)
    from fetch_step_final [OF Inl [unfolded res]]
    show ?thesis by (simp add: qboFetch_Inl [OF Inl] res)
  next
    case (Inr nxt)
    obtain a' tr' where nxt: "nxt = (a', tr')" by (cases nxt)
    note step = Inr [unfolded nxt]
    from fetch_step_next [OF step] have "ft_resets tr' = ft_resets tr" by simp
    with "1.IH" [OF Inr nxt [symmetric]] show ?thesis by (simp add: qboFetch_Inr [OF step])
  qed
qed

lemma qboFetch_sleeps:
  "e \<in> set (ft_sleeps (snd (qboFetch env a tr))) \<Longrightarrow> e \<in> set (ft_sleeps tr) \<or> sleep_ok env e"
proof (induction env a tr rule: qboFetch.induct)
  case (1 env a tr)
  show ?case
  proof (cases "fetch_step env a tr")
    case (Inl res)
    obtain r tr' where res: "res = (r, tr')" by (cases res)
    from fetch_step_final [OF Inl [unfolded res]] "1.prems"
    show ?thesis by (simp add: qboFetch_Inl [OF Inl] res)
  next
    case (Inr nxt)
    obtain a' tr' where nxt: "nxt = (a', tr')" by (cases nxt)
    note step = Inr [unfolded nxt]
    from "1.prems" have "e \<in> set (ft_sleeps (snd (qboFetch env a' tr')))"
      by (simp add: qboFetch_Inr [OF step])
    from "1.IH" [OF Inr nxt [symmetric] this]
    have ih: "e \<in> set (ft_sleeps tr') \<or> sleep_ok env e" .
    from fetch_step_next [OF step]
    have "ft_sleeps tr' = ft_sleeps tr \<or>
          (ft_sleeps tr' = ft_sleeps tr @ [(att a, waitMs env (att a))] \<and>
           sleep_ok env (att a, waitMs env (att a)))"
      using waitMs_ok by blast
    with ih show ?thesis by auto
  qed
qed

lemma baseDelay_mono: "a \<le> b \<Longrightarrow> baseDelay a \<le> baseDelay b"
  unfolding baseDelay_def
  by (rule min.mono [OF order_refl]) (simp add: power_increasing)

lemma baseDelay_cap: "baseDelay a \<le> 30000"
  by (simp add: baseDelay_def)


lemma double_401:
  assumes "fe_credentials env" "fe_access env 1" "fe_access env 2"
    and "hr_status (fe_respond env 1) = 401" "hr_status (fe_respond env 2) = 401"
  shows "qboFetch env 0 no_trace =
     (Inl (AuthorizationExpired 401 (fault_text (hr_body (fe_respond env 2)))),
      \<lparr>ft_requests = [1, 2], ft_refreshes = 1, ft_resets = 1, ft_sleeps = []\<rparr>)"
proof -
  have s1: "fetch_step env 0 no_trace =
      Inr (2, \<lparr>ft_requests = [1], ft_refreshes = 1, ft_resets = 0, ft_sleeps = []\<rparr>)"
    using assms by (simp add: fetch_step_def Let_def no_trace_def)
  have s2: "fetch_step env 2 \<lparr>ft_requests = [1], ft_refreshes = 1, ft_resets = 0, ft_sleeps = []\<rparr> =
      Inl (Inl (AuthorizationExpired 401 (fault_text (hr_body (fe_respond env 2)))),
           \<lparr>ft_requests = [1, 2], ft_refreshes = 1, ft_resets = 1, ft_sleeps = []\<rparr>)"
    using assms by (simp add: fetch_step_def Let_def retryable_def)
  have "qboFetch env 0 no_trace =
      qboFetch env 2 \<lparr>ft_requests = [1], ft_refreshes = 1, ft_resets = 0, ft_sleeps = []\<rparr>"
    by (rule qboFetch_Inr [OF s1])
  also have "\<dots> = (Inl (AuthorizationExpired 401 (fault_text (hr_body (fe_respond env 2)))),
      \<lparr>ft_requests = [1, 2], ft_refreshes = 1, ft_resets = 1, ft_sleeps = []\<rparr>)"
    by (rule qboFetch_Inl [OF s2])
  finally show ?thesis .
qed

lemma late_401_terminal:
  assumes "fe_credentials env" "fe_access env (att n)"
    and "hr_status (fe_respond env (att n)) = 401" "att n \<noteq> 1"
  shows "fetch_step env n tr =
     Inl (Inl (AuthorizationExpired 401 (fault_text (hr_body (fe_respond env (att n))))),
          tr\<lparr>ft_requests := ft_requests tr @ [att n], ft_resets := ft_resets tr + 1\<rparr>)"
  using assms by (simp add: fetch_step_def Let_def retryable_def att_def)

lemma retryable_retries:
  assumes "fe_credentials env" "fe_access env (att n)"
    and "retryable (hr_status (fe_respond env (att n)))" "att n < maxAttempts"
  shows "fetch_step env n tr =
     Inr (Suc (att n),
          tr\<lparr>ft_requests := ft_requests tr @ [att n],
             ft_sleeps := ft_sleeps tr @ [(att n, waitMs env (att n))]\<rparr>)"
proof -
  from assms(3) have "hr_status (fe_respond env (att n)) = 429 \<or>
      (500 \<le> hr_status (fe_respond env (att n)) \<and> hr_status (fe_respond env (att n)) \<le> 504)"
    by (simp add: retryable_def)
  then have ns: "\<not> hr_status (fe_respond env (att n)) < 300"
    "hr_status (fe_respond env (att n)) \<noteq> 401"
    by auto
  have "fetch_step env n tr =
     (if \<not> fe_credentials env then Inl (Inl MissingCredentials, tr)
      else
        (let attemptNumber = att n in
         if \<not> fe_access env attemptNumber then Inl (Inl NotAuthorized, tr)
         else
           (let response = fe_respond env attemptNumber;
                status = hr_status response;
                tr1 = tr\<lparr>ft_requests := ft_requests tr @ [attemptNumber]\<rparr>
            in if 200 \<le> status \<and> status < 300 then
                 (case hr_body response of
                    NoBody \<Rightarrow> Inl (Inr OtherJson, tr1)
                  | BadJson t \<Rightarrow> Inl (Inl JsonSyntaxError, tr1)
                  | b \<Rightarrow> Inl (Inr b, tr1))
               else if status = 401 \<and> attemptNumber = 1 then
                 Inr (attemptNumber + 1, tr1\<lparr>ft_refreshes := ft_refreshes tr1 + 1\<rparr>)
               else if retryable status \<and> attemptNumber < maxAttempts then
                 Inr (attemptNumber + 1,
                   tr1\<lparr>ft_sleeps := ft_sleeps tr1 @ [(attemptNumber, waitMs env attemptNumber)]\<rparr>)
               else if status = 401 then
                 Inl (Inl (AuthorizationExpired status (fault_text (hr_body response))),
                      tr1\<lparr>ft_resets := ft_resets tr1 + 1\<rparr>)
               else Inl (Inl (QboHttp status (fault_text (hr_body response))), tr1))))"
    unfolding fetch_step_def att_def ..
  with assms ns show ?thesis by (simp add: Let_def)
qed

lemma three_429_then_200:
  assumes "fe_credentials env" "fe_access env 1" "fe_access env 2" "fe_access env 3"
    "fe_access env 4"
    and "hr_status (fe_respond env 1) = 429" "hr_status (fe_respond env 2) = 429"
    "hr_status (fe_respond env 3) = 429" "hr_status (fe_respond env 4) = 200"
  shows "ft_requests (snd (qboFetch env 0 no_trace)) = [1, 2, 3, 4] \<and>
    ft_sleeps (snd (qboFetch env 0 no_trace))
      = [(1, waitMs env 1), (2, waitMs env 2), (3, waitMs env 3)]"
proof -
  define t1 where "t1 = \<lparr>ft_requests = [1::nat], ft_refreshes = 0, ft_resets = 0,
      ft_sleeps = [(1::nat, waitMs env 1)]\<rparr>"
  define t2 where "t2 = \<lparr>ft_requests = [1::nat, 2], ft_refreshes = 0, ft_resets = 0,
      ft_sleeps = [(1::nat, waitMs env 1), (2, waitMs env 2)]\<rparr>"
  define t3 where "t3 = \<lparr>ft_requests = [1::nat, 2, 3], ft_refreshes = 0, ft_resets = 0,
      ft_sleeps = [(1::nat, waitMs env 1), (2, waitMs env 2), (3, waitMs env 3)]\<rparr>"
  have s1: "fetch_step env 0 no_trace = Inr (2, t1)"
    using assms by (simp add: fetch_step_def Let_def no_trace_def retryable_def maxAttempts_def t1_def)
  have s2: "fetch_step env 2 t1 = Inr (3, t2)"
    using assms by (simp add: fetch_step_def Let_def retryable_def maxAttempts_def t1_def t2_def)
  have s3: "fetch_step env 3 t2 = Inr (4, t3)"
    using assms by (simp add: fetch_step_def Let_def retryable_def maxAttempts_def t2_def t3_def)
  have "\<exists>r. fetch_step env 4 t3 = Inl (r, t3\<lparr>ft_requests := [1, 2, 3, 4]\<rparr>)"
    using assms by (cases "hr_body (fe_respond env 4)")
      (simp_all add: fetch_step_def Let_def t3_def)
  then obtain r where s4: "fetch_step env 4 t3 = Inl (r, t3\<lparr>ft_requests := [1, 2, 3, 4]\<rparr>)"
    by blast
  have "qboFetch env 0 no_trace = (r, t3\<lparr>ft_requests := [1, 2, 3, 4]\<rparr>)"
    by (simp add: qboFetch_Inr [OF s1] qboFetch_Inr [OF s2] qboFetch_Inr [OF s3]
        qboFetch_Inl [OF s4])
  then show ?thesis by (simp add: t3_def)
qed

lemma make_auth_trace:
  "at_refreshes (snd (makeAuthenticatedRequest aenv no_auth_trace)) \<le> 1 \<and>
   length (at_requests (snd (makeAuthenticatedRequest aenv no_auth_trace))) \<le> 2 \<and>
   at_resets (snd (makeAuthenticatedRequest aenv no_auth_trace)) = 0"
  by (simp add: makeAuthenticatedRequest_def refreshAccessToken_def Let_def no_auth_trace_def
      split: sum.splits option.splits)

lemma make_auth_401:
  assumes "ae_access aenv" and "ae_realmId aenv \<noteq> ''''"
    and "ae_respond aenv 1 = Inr r1" and "hr_status r1 = 401"
    and "ae_refresh_throws aenv 1 = None" and "ae_respond aenv 2 = Inr r2"
  shows "makeAuthenticatedRequest aenv no_auth_trace =
     (Inr r2,
      \<lparr>at_requests = [1, 2], at_expiry_refreshes = (if ae_expiring aenv then 1 else 0),
       at_refreshes = 1, at_resets = 0, at_sleeps = []\<rparr>)"
  using assms
  by (simp add: makeAuthenticatedRequest_def refreshAccessToken_def Let_def no_auth_trace_def)

lemma retry_step_returns:
  assumes "retry_step env a le tr = Inl (r, tr')"
  shows "at_requests tr' = at_requests tr @ [a + 1]" and "at_refreshes tr' = at_refreshes tr"
    and "at_resets tr' = at_resets tr" and "ae_respond env (a + 1) = Inr r"
    and "hr_status r \<noteq> 401" and "hr_status r \<noteq> 429"
    and "\<not> (500 \<le> hr_status r \<and> hr_status r < 600)"
  using assms
  by (auto simp: retry_step_def Let_def split: sum.splits option.splits if_splits)

lemma retry_step_goes_on:
  assumes "retry_step env a le tr = Inr (le', tr')"
  shows "at_requests tr' = at_requests tr @ [a + 1]"
    and "at_refreshes tr' =
      at_refreshes tr + (case ae_respond env (a + 1) of
                           Inl _ \<Rightarrow> 0 | Inr r \<Rightarrow> if hr_status r = 401 then 1 else 0)"
    and "at_resets tr' = at_resets tr"
  using assms
  by (auto simp: retry_step_def Let_def split: sum.splits option.splits if_splits)

lemma fetchWithRetry_trace:
  "length (at_requests (snd (fetchWithRetry env a le tr)))
     \<le> length (at_requests tr) + (retryMaxAttempts - a) \<and>
   at_refreshes (snd (fetchWithRetry env a le tr)) \<le> at_refreshes tr + (retryMaxAttempts - a) \<and>
   at_resets (snd (fetchWithRetry env a le tr)) = at_resets tr \<and>
   (\<forall>r. fst (fetchWithRetry env a le tr) = Inr r \<longrightarrow>
      hr_status r \<noteq> 401 \<and> hr_status r \<noteq> 429 \<and> \<not> (500 \<le> hr_status r \<and> hr_status r < 600))"
proof (induction env a le tr rule: fetchWithRetry.induct)
  case (1 env a le tr)
  show ?case
  proof (cases "a < retryMaxAttempts")
    case False
    then show ?thesis
      by (simp add: fetchWithRetry.simps [of env a] split: option.splits)
  next
    case True
    show ?thesis
    proof (cases "retry_step env a le tr")
      case (Inl res)
      obtain r tr' where res: "res = (r, tr')" by (cases res)
      from Inl res have st: "retry_step env a le tr = Inl (r, tr')" by simp
      have eq: "fetchWithRetry env a le tr = (Inr r, tr')"
        using True st by (simp add: fetchWithRetry.simps [of env a])
      from retry_step_returns [OF st] True show ?thesis
        unfolding eq by (simp; arith)
    next
      case (Inr nxt)
      obtain le' tr' where nxt: "nxt = (le', tr')" by (cases nxt)
      from Inr nxt have st: "retry_step env a le tr = Inr (le', tr')" by simp
      have eq: "fetchWithRetry env a le tr = fetchWithRetry env (Suc a) le' tr'"
        using True st by (simp add: fetchWithRetry.simps [of env a])
      note ih = "1.IH" [OF True st refl]
      have rq: "length (at_requests tr') = Suc (length (at_requests tr))"
        and rs: "at_resets tr' = at_resets tr"
        and rf: "at_refreshes tr' \<le> Suc (at_refreshes tr)"
        using retry_step_goes_on [OF st] by (simp_all split: sum.splits)
      from ih rq rs rf True show ?thesis
        unfolding eq by auto
    qed
  qed
qed

lemma retry_step_401:
  assumes "ae_respond env (a + 1) = Inr r" and "hr_status r = 401"
    and "ae_refresh_throws env (a + 1) = None"
  shows "retry_step env a le tr =
    Inr (le, tr\<lparr>at_requests := at_requests tr @ [a + 1], at_refreshes := at_refreshes tr + 1\<rparr>)"
  using assms by (simp add: retry_step_def Let_def)

lemma retry_step_ok:
  assumes "ae_respond env (a + 1) = Inr r" and "hr_status r = 200"
  shows "retry_step env a le tr = Inl (r, tr\<lparr>at_requests := at_requests tr @ [a + 1]\<rparr>)"
  using assms by (simp add: retry_step_def Let_def)

lemma fetchWithRetry_next:
  assumes "a < retryMaxAttempts" and "retry_step env a le tr = Inr (le', tr')"
  shows "fetchWithRetry env a le tr = fetchWithRetry env (Suc a) le' tr'"
  using assms by (simp add: fetchWithRetry.simps [of env a])

lemma fetchWithRetry_four_401:
  assumes "\<forall>n \<in> {1, 2, 3, 4}. \<exists>r. ae_respond env n = Inr r \<and> hr_status r = 401"
    and "\<forall>n \<in> {1, 2, 3, 4}. ae_refresh_throws env n = None"
  shows "fetchWithRetry env 0 None tr =
    (Inl ''Request failed after multiple attempts'',
     tr\<lparr>at_requests := at_requests tr @ [1, 2, 3, 4], at_refreshes := at_refreshes tr + 4\<rparr>)"
proof -
  have step: "retry_step env a None t =
      Inr (None, t\<lparr>at_requests := at_requests t @ [a + 1], at_refreshes := at_refreshes t + 1\<rparr>)"
    if "a < 4" for a t
  proof -
    from that have "a + 1 \<in> {1, 2, 3, 4}" by auto
    with assms obtain r where "ae_respond env (a + 1) = Inr r" "hr_status r = 401"
      "ae_refresh_throws env (a + 1) = None"
      by blast
    then show ?thesis by (rule retry_step_401)
  qed
  have "fetchWithRetry env 0 None tr = fetchWithRetry env 1 None
      (tr\<lparr>at_requests := at_requests tr @ [1], at_refreshes := at_refreshes tr + 1\<rparr>)"
    using fetchWithRetry_next [OF _ step [of 0 tr]] by (simp add: retryMaxAttempts_def)
  also have "\<dots> = fetchWithRetry env 2 None
      (tr\<lparr>at_requests := at_requests tr @ [1, 2], at_refreshes := at_refreshes tr + 2\<rparr>)"
    using fetchWithRetry_next [OF _ step [of 1
        "tr\<lparr>at_requests := at_requests tr @ [1], at_refreshes := at_refreshes tr + 1\<rparr>"]]
    by (simp add: retryMaxAttempts_def numeral_2_eq_2)
  also have "\<dots> = fetchWithRetry env 3 None
      (tr\<lparr>at_requests := at_requests tr @ [1, 2, 3], at_refreshes := at_refreshes tr + 3\<rparr>)"
    using fetchWithRetry_next [OF _ step [of 2
        "tr\<lparr>at_requests := at_requests tr @ [1, 2], at_refreshes := at_refreshes tr + 2\<rparr>"]]
    by (simp add: retryMaxAttempts_def numeral_3_eq_3 numeral_2_eq_2)
  also have "\<dots> = fetchWithRetry env 4 None
      (tr\<lparr>at_requests := at_requests tr @ [1, 2, 3, 4], at_refreshes := at_refreshes tr + 4\<rparr>)"
    using fetchWithRetry_next [OF _ step [of 3
        "tr\<lparr>at_requests := at_requests tr @ [1, 2, 3], at_refreshes := at_refreshes tr + 3\<rparr>"]]
    by (simp add: retryMaxAttempts_def eval_nat_numeral)
  also have "\<dots> = (Inl ''Request failed after multiple attempts'',
      tr\<lparr>at_requests := at_requests tr @ [1, 2, 3, 4], at_refreshes := at_refreshes tr + 4\<rparr>)"
    by (simp add: fetchWithRetry.simps [of env 4] retryMaxAttempts_def)
  finally show ?thesis .
qed

lemma make_auth_retrying_trace:
  "length (at_requests (snd (makeAuthenticatedRequest_Auth aenv no_auth_trace))) \<le> 4 \<and>
   at_refreshes (snd (makeAuthenticatedRequest_Auth aenv no_auth_trace)) \<le> 4 \<and>
   at_resets (snd (makeAuthenticatedRequest_Auth aenv no_auth_trace)) = 0 \<and>
   (\<forall>r. fst (makeAuthenticatedRequest_Auth aenv no_auth_trace) = Inr r \<longrightarrow>
      hr_status r \<noteq> 401 \<and> hr_status r \<noteq> 429 \<and> \<not> (500 \<le> hr_status r \<and> hr_status r < 600))"
proof -
  define tr0 where "tr0 = refreshAccessToken aenv no_auth_trace"
  have t0: "at_requests tr0 = []" "at_refreshes tr0 = 0" "at_resets tr0 = 0"
    by (simp_all add: tr0_def refreshAccessToken_def no_auth_trace_def)
  have n0: "at_requests no_auth_trace = []" "at_refreshes no_auth_trace = 0"
    "at_resets no_auth_trace = 0"
    by (simp_all add: no_auth_trace_def)
  from fetchWithRetry_trace [of aenv 0 None tr0] t0 n0 show ?thesis
    by (simp add: makeAuthenticatedRequest_Auth_def Let_def tr0_def [symmetric]
        retryMaxAttempts_def)
qed

lemma make_auth_retrying_four_401:
  assumes "ae_credentials aenv" and "ae_access aenv" and "ae_realmId aenv \<noteq> ''''"
    and "\<forall>n \<in> {1, 2, 3, 4}. \<exists>r. ae_respond aenv n = Inr r \<and> hr_status r = 401"
    and "\<forall>n \<in> {1, 2, 3, 4}. ae_refresh_throws aenv n = None"
  shows "makeAuthenticatedRequest_Auth aenv no_auth_trace =
     (Inl ''Request failed after multiple attempts'',
      \<lparr>at_requests = [1, 2, 3, 4], at_expiry_refreshes = (if ae_expiring aenv then 1 else 0),
       at_refreshes = 4, at_resets = 0, at_sleeps = []\<rparr>)"
  using assms(1,2,3)
  by (simp add: makeAuthenticatedRequest_Auth_def Let_def
      fetchWithRetry_four_401 [OF assms(4,5)] refreshAccessToken_def no_auth_trace_def)

lemma scripted_simps:
  "fe_credentials (scripted ss)" "fe_access (scripted ss) n"
  "hr_status (fe_respond (scripted ss) n) = (if n - 1 < length ss then ss ! (n - 1) else 200)"
  "hr_body (fe_respond (scripted ss) n) = OtherJson"
  "hr_retryAfter (fe_respond (scripted ss) n) = 0"
  "fe_random (scripted ss) n = 7 * n"
  by (simp_all add: scripted_def reply_def)

lemma scripted_auth_simps:
  "ae_credentials (scripted_auth ss)" "ae_access (scripted_auth ss)"
  "\<not> ae_expiring (scripted_auth ss)" "ae_realmId (scripted_auth ss) = ''9130''"
  "ae_refresh_throws (scripted_auth ss) n = None"
  "ae_respond (scripted_auth ss) n = Inr (reply (if n - 1 < length ss then ss ! (n - 1) else 200))"
  by (simp_all add: scripted_auth_def)

lemma unretried_505:
  "qboFetch (scripted [505]) 0 no_trace =
     (Inl (QboHttp 505 ''''),
      \<lparr>ft_requests = [1], ft_refreshes = 0, ft_resets = 0, ft_sleeps = []\<rparr>)"
proof -
  have "fetch_step (scripted [505]) 0 no_trace =
     Inl (Inl (QboHttp 505 ''''),
      \<lparr>ft_requests = [1], ft_refreshes = 0, ft_resets = 0, ft_sleeps = []\<rparr>)"
    by (simp add: fetch_step_def Let_def scripted_simps no_trace_def retryable_def)
  then show ?thesis by (rule qboFetch_Inl)
qed

text \<open>No status from 505 upward is retried.\<close>

lemma no_retry_from_505:
  assumes "fe_credentials env" and "fe_access env (att n)"
    and "505 \<le> hr_status (fe_respond env (att n))"
  shows "fetch_step env n tr =
    Inl (Inl (QboHttp (hr_status (fe_respond env (att n)))
                (fault_text (hr_body (fe_respond env (att n))))),
         tr\<lparr>ft_requests := ft_requests tr @ [att n]\<rparr>)"
  using assms by (simp add: fetch_step_def Let_def att_def retryable_def)

lemma returned_401:
  "makeAuthenticatedRequest (scripted_auth [401, 401]) no_auth_trace =
     (Inr (reply 401),
      \<lparr>at_requests = [1, 2], at_expiry_refreshes = 0, at_refreshes = 1, at_resets = 0,
       at_sleeps = []\<rparr>)"
  using make_auth_401 [of "scripted_auth [401, 401]" "reply 401" "reply 401"]
  by (simp add: scripted_auth_simps reply_def)

lemma four_refreshes:
  "makeAuthenticatedRequest_Auth (scripted_auth [401, 401, 401, 401]) no_auth_trace =
     (Inl ''Request failed after multiple attempts'',
      \<lparr>at_requests = [1, 2, 3, 4], at_expiry_refreshes = 0, at_refreshes = 4, at_resets = 0,
       at_sleeps = []\<rparr>)"
proof -
  have "fetchWithRetry (scripted_auth [401, 401, 401, 401]) 0 None no_auth_trace =
    (Inl ''Request failed after multiple attempts'',
     no_auth_trace\<lparr>at_requests := at_requests no_auth_trace @ [1, 2, 3, 4],
                   at_refreshes := at_refreshes no_auth_trace + 4\<rparr>)"
    by (rule fetchWithRetry_four_401) (simp_all add: scripted_auth_simps reply_def)
  then show ?thesis
    by (simp add: makeAuthenticatedRequest_Auth_def refreshAccessToken_def scripted_auth_simps
        Let_def no_auth_trace_def)
qed

lemma third_attempt_after_two_401:
  "makeAuthenticatedRequest_Auth (scripted_auth [401, 401, 200]) no_auth_trace =
     (Inr (reply 200),
      \<lparr>at_requests = [1, 2, 3], at_expiry_refreshes = 0, at_refreshes = 2, at_resets = 0,
       at_sleeps = []\<rparr>)"
  by (simp add: makeAuthenticatedRequest_Auth_def refreshAccessToken_def scripted_auth_simps
      Let_def no_auth_trace_def fetchWithRetry.simps retry_step_def retryMaxAttempts_def
      reply_def)

text \<open>
  Claim C2, as the code has it. A call of \<open>qboFetch_\<close> issues at most six requests. Every
  sleep follows a response with status 429 or 500 to 504 received before the sixth
  attempt, and lasts the Retry-After hint in seconds when the response carries one,
  else \<open>min(30000, 250 \<times> 2^attempt)\<close> plus a jitter below 250 ms; such a response is always
  followed by that sleep and the next attempt. The delay without jitter never decreases
  from one attempt to the next and stays within the cap. Three responses 429 followed by
  a 200 make exactly four requests.
\<close>

theorem qboFetch_backoff:
  "length (ft_requests (snd (qboFetch env 0 no_trace))) \<le> 6 \<and>
   (\<forall>e \<in> set (ft_sleeps (snd (qboFetch env 0 no_trace))). sleep_ok env e) \<and>
   (fe_credentials env \<and> fe_access env (att n) \<and>
    retryable (hr_status (fe_respond env (att n))) \<and> att n < maxAttempts \<longrightarrow>
      fetch_step env n tr =
        Inr (Suc (att n),
             tr\<lparr>ft_requests := ft_requests tr @ [att n],
                ft_sleeps := ft_sleeps tr @ [(att n, waitMs env (att n))]\<rparr>)) \<and>
   (a \<le> b \<longrightarrow> baseDelay a \<le> baseDelay b) \<and> baseDelay a \<le> 30000 \<and>
   (fe_credentials env \<and> fe_access env 1 \<and> fe_access env 2 \<and> fe_access env 3 \<and>
    fe_access env 4 \<and> hr_status (fe_respond env 1) = 429 \<and>
    hr_status (fe_respond env 2) = 429 \<and> hr_status (fe_respond env 3) = 429 \<and>
    hr_status (fe_respond env 4) = 200 \<longrightarrow>
      ft_requests (snd (qboFetch env 0 no_trace)) = [1, 2, 3, 4] \<and>
      ft_sleeps (snd (qboFetch env 0 no_trace))
        = [(1, waitMs env 1), (2, waitMs env 2), (3, waitMs env 3)])"
proof -
  have "length (ft_requests (snd (qboFetch env 0 no_trace))) + att 0
      \<le> length (ft_requests no_trace) + Suc maxAttempts"
    by (rule qboFetch_requests) (simp add: att_def maxAttempts_def)
  then have r: "length (ft_requests (snd (qboFetch env 0 no_trace))) \<le> 6"
    by (simp add: att_def maxAttempts_def no_trace_def)
  have s: "\<forall>e \<in> set (ft_sleeps (snd (qboFetch env 0 no_trace))). sleep_ok env e"
  proof
    fix e assume "e \<in> set (ft_sleeps (snd (qboFetch env 0 no_trace)))"
    from qboFetch_sleeps [OF this] show "sleep_ok env e" by (simp add: no_trace_def)
  qed
  note t = retryable_retries [of env n tr]
  note m = baseDelay_mono [of a b] baseDelay_cap [of a]
  note q = three_429_then_200 [of env]
  from r s t m q show ?thesis by blast
qed

theorem qboFetch_backoff_witness:
  "ft_requests (snd (qboFetch (scripted [429, 429, 429, 200]) 0 no_trace)) = [1, 2, 3, 4] \<and>
   ft_sleeps (snd (qboFetch (scripted [429, 429, 429, 200]) 0 no_trace))
     = [(1, 507), (2, 1014), (3, 2021)] \<and>
   baseDelay 1 \<le> baseDelay 2 \<and> baseDelay 9 = 30000"
proof -
  have "ft_requests (snd (qboFetch (scripted [429, 429, 429, 200]) 0 no_trace)) = [1, 2, 3, 4] \<and>
      ft_sleeps (snd (qboFetch (scripted [429, 429, 429, 200]) 0 no_trace))
        = [(1, waitMs (scripted [429, 429, 429, 200]) 1),
           (2, waitMs (scripted [429, 429, 429, 200]) 2),
           (3, waitMs (scripted [429, 429, 429, 200]) 3)]"
    using qboFetch_backoff [of "scripted [429, 429, 429, 200]" 0 no_trace 1 2]
    by (simp add: scripted_simps)
  moreover have "waitMs (scripted [429, 429, 429, 200]) 1 = 507"
    "waitMs (scripted [429, 429, 429, 200]) 2 = 1014"
    "waitMs (scripted [429, 429, 429, 200]) 3 = 2021"
    by (simp_all add: waitMs_def scripted_simps baseDelay_def)
  moreover have "baseDelay 1 \<le> baseDelay 2" "baseDelay 9 = 30000"
    by (simp_all add: baseDelay_def)
  ultimately show ?thesis by simp
qed

text \<open>
  Claim C2 as stated fails for the server errors above 504: a response with status 505
  on the first attempt is not retried. One request is made, there is no sleep, and the
  error is raised at once.
\<close>

theorem server_error_505_not_retried:
  "qboFetch (scripted [505]) 0 no_trace =
     (Inl (QboHttp 505 ''''),
      \<lparr>ft_requests = [1], ft_refreshes = 0, ft_resets = 0, ft_sleeps = []\<rparr>)"
  by (rule unretried_505)

text \<open>
  C1, as the code has it. \<open>qboFetch_\<close> (\<open>src/unnamed/part_002\<close>) refreshes the token at most
  once in a call; a 401 on the first attempt is followed by one refresh and one retry; a
  401 on any later attempt raises the authorization error after \<open>svc.reset()\<close>, so two 401
  in a row make two requests, one refresh and one reset; the session is reset exactly when
  that error is raised. \<open>makeAuthenticatedRequest\<close> of \<open>src/unnamed/part_000\<close> makes at most
  two requests, refreshes at most once after a 401 and never resets the session: after a
  401 it refreshes, retries once, and returns the second response whatever its status.
  \<open>makeAuthenticatedRequest\<close> of \<open>src/Auth.gs\<close> makes at most four requests and refreshes
  after every 401 among them; it never resets the session and never returns a 401 response;
  four 401 in a row make four requests and four refreshes and end in the error
  \<open>Request failed after multiple attempts\<close>.
\<close>

theorem auth_failure_handling:
  "ft_refreshes (snd (qboFetch env 0 no_trace)) \<le> 1 \<and>
   ft_resets (snd (qboFetch env 0 no_trace))
     = (if is_auth_expired (fst (qboFetch env 0 no_trace)) then 1 else 0) \<and>
   (fe_credentials env \<and> fe_access env 1 \<and> fe_access env 2 \<and>
    hr_status (fe_respond env 1) = 401 \<and> hr_status (fe_respond env 2) = 401 \<longrightarrow>
      qboFetch env 0 no_trace =
        (Inl (AuthorizationExpired 401 (fault_text (hr_body (fe_respond env 2)))),
         \<lparr>ft_requests = [1, 2], ft_refreshes = 1, ft_resets = 1, ft_sleeps = []\<rparr>)) \<and>
   (fe_credentials env \<and> fe_access env (att n) \<and>
    hr_status (fe_respond env (att n)) = 401 \<and> att n \<noteq> 1 \<longrightarrow>
      fetch_step env n tr =
        Inl (Inl (AuthorizationExpired 401 (fault_text (hr_body (fe_respond env (att n))))),
             tr\<lparr>ft_requests := ft_requests tr @ [att n], ft_resets := ft_resets tr + 1\<rparr>)) \<and>
   at_refreshes (snd (makeAuthenticatedRequest aenv no_auth_trace)) \<le> 1 \<and>
   length (at_requests (snd (makeAuthenticatedRequest aenv no_auth_trace))) \<le> 2 \<and>
   at_resets (snd (makeAuthenticatedRequest aenv no_auth_trace)) = 0 \<and>
   (ae_access aenv \<and> ae_realmId aenv \<noteq> '''' \<and> ae_respond aenv 1 = Inr r1 \<and>
    hr_status r1 = 401 \<and> ae_refresh_throws aenv 1 = None \<and> ae_respond aenv 2 = Inr r2 \<longrightarrow>
      makeAuthenticatedRequest aenv no_auth_trace =
        (Inr r2,
         \<lparr>at_requests = [1, 2], at_expiry_refreshes = (if ae_expiring aenv then 1 else 0),
          at_refreshes = 1, at_resets = 0, at_sleeps = []\<rparr>)) \<and>
   length (at_requests (snd (makeAuthenticatedRequest_Auth aenv no_auth_trace))) \<le> 4 \<and>
   at_refreshes (snd (makeAuthenticatedRequest_Auth aenv no_auth_trace)) \<le> 4 \<and>
   at_resets (snd (makeAuthenticatedRequest_Auth aenv no_auth_trace)) = 0 \<and>
   (\<forall>r. fst (makeAuthenticatedRequest_Auth aenv no_auth_trace) = Inr r \<longrightarrow>
      hr_status r \<noteq> 401) \<and>
   (ae_credentials aenv \<and> ae_access aenv \<and> ae_realmId aenv \<noteq> '''' \<and>
    (\<forall>n \<in> {1, 2, 3, 4}. \<exists>r. ae_respond aenv n = Inr r \<and> hr_status r = 401) \<and>
    (\<forall>n \<in> {1, 2, 3, 4}. ae_refresh_throws aenv n = None) \<longrightarrow>
      makeAuthenticatedRequest_Auth aenv no_auth_trace =
        (Inl ''Request failed after multiple attempts'',
         \<lparr>at_requests = [1, 2, 3, 4], at_expiry_refreshes = (if ae_expiring aenv then 1 else 0),
          at_refreshes = 4, at_resets = 0, at_sleeps = []\<rparr>))"
proof -
  have a: "ft_refreshes (snd (qboFetch env 0 no_trace)) \<le> 1"
    using qboFetch_refreshes [of env 0 no_trace] by (simp add: att_def no_trace_def)
  have b: "ft_resets (snd (qboFetch env 0 no_trace))
     = (if is_auth_expired (fst (qboFetch env 0 no_trace)) then 1 else 0)"
    using qboFetch_resets [of env 0 no_trace] by (simp add: no_trace_def)
  note c = double_401 [of env]
  note d = late_401_terminal [of env n tr]
  note e = make_auth_trace [of aenv]
  note f = make_auth_401 [of aenv r1 r2]
  note g = make_auth_retrying_trace [of aenv]
  note h = make_auth_retrying_four_401 [of aenv]
  have g': "\<forall>r. fst (makeAuthenticatedRequest_Auth aenv no_auth_trace) = Inr r \<longrightarrow>
      hr_status r \<noteq> 401"
    using g by blast
  from a b c d e f g g' h show ?thesis by blast
qed

theorem auth_failure_handling_witness:
  "qboFetch (scripted [401, 401]) 0 no_trace =
     (Inl (AuthorizationExpired 401 ''''),
      \<lparr>ft_requests = [1, 2], ft_refreshes = 1, ft_resets = 1, ft_sleeps = []\<rparr>) \<and>
   makeAuthenticatedRequest (scripted_auth [401, 200]) no_auth_trace =
     (Inr (reply 200),
      \<lparr>at_requests = [1, 2], at_expiry_refreshes = 0, at_refreshes = 1, at_resets = 0,
       at_sleeps = []\<rparr>) \<and>
   makeAuthenticatedRequest_Auth (scripted_auth [401, 401, 401, 401]) no_auth_trace =
     (Inl ''Request failed after multiple attempts'',
      \<lparr>at_requests = [1, 2, 3, 4], at_expiry_refreshes = 0, at_refreshes = 4, at_resets = 0,
       at_sleeps = []\<rparr>)"
  using
    auth_failure_handling [where env = "scripted [401, 401]" and n = 0 and tr = no_trace
      and aenv = "scripted_auth [401, 200]" and ?r1.0 = "reply 401" and ?r2.0 = "reply 200"]
    auth_failure_handling [where env = "scripted [401, 401]" and n = 0 and tr = no_trace
      and aenv = "scripted_auth [401, 401, 401, 401]" and ?r1.0 = "reply 401"
      and ?r2.0 = "reply 401"]
  by (simp add: scripted_simps scripted_auth_simps reply_def)

text \<open>
  Claim C1 as stated fails for both \<open>makeAuthenticatedRequest\<close>. That of
  \<open>src/unnamed/part_000\<close> returns the response of the retried request to its caller when it
  is a 401 as well: no error is raised and the session is not reset. That of \<open>src/Auth.gs\<close>
  refreshes and retries again after the second 401: two 401 and a 200 make three requests
  and two refreshes, and four 401 make four refreshes before the error, with no reset.
\<close>

theorem second_401_not_terminal:
  "makeAuthenticatedRequest (scripted_auth [401, 401]) no_auth_trace =
     (Inr (reply 401),
      \<lparr>at_requests = [1, 2], at_expiry_refreshes = 0, at_refreshes = 1, at_resets = 0,
       at_sleeps = []\<rparr>) \<and>
   hr_status (reply 401) = 401 \<and>
   makeAuthenticatedRequest_Auth (scripted_auth [401, 401, 200]) no_auth_trace =
     (Inr (reply 200),
      \<lparr>at_requests = [1, 2, 3], at_expiry_refreshes = 0, at_refreshes = 2, at_resets = 0,
       at_sleeps = []\<rparr>) \<and>
   makeAuthenticatedRequest_Auth (scripted_auth [401, 401, 401, 401]) no_auth_trace =
     (Inl ''Request failed after multiple attempts'',
      \<lparr>at_requests = [1, 2, 3, 4], at_expiry_refreshes = 0, at_refreshes = 4, at_resets = 0,
       at_sleeps = []\<rparr>)"
  using returned_401 third_attempt_after_two_401 four_refreshes by (simp add: reply_def)


subsection \<open>Worked runs of the writer and of the job runner\<close>

lemma show_nat_digits:
  "show_nat 2 = ''2''" "show_nat 3 = ''3''" "show_nat 7 = ''7''"
  by code_simp+

lemma parse_int10_7: "parse_int10 ''7'' = Some 7"
  by code_simp

lemma sanitize_A1: "sanitizeAnchorCell ''A1'' = ''A1''"
  by code_simp

lemma anchor_row_A1: "anchor_row ''A1'' = 1"
  by code_simp

lemma trim_Customers: "trim ''Customers'' = ''Customers''" "trim '' '' = ''''"
  by code_simp+

lemma upper_A1: "map to_upper (trim ''A1'') = ''A1''"
  by code_simp

lemma normalize_customers_target:
  "normalizeDatasetTarget customers_target nm = customers_target"
  by (simp add: normalizeDatasetTarget_def customers_target_def or_else_def sanitize_A1)


lemma resolve_sheet_by_id:
  assumes "w_sheets w = [\<lparr>sh_id = 7, sh_name = nm\<rparr>]"
  shows "resolve_sheet n customers_target dn w =
    (\<lparr>sh_id = 7, sh_name = nm\<rparr>,
     no_updates\<lparr>tu_sheetId := None,
                tu_sheetName := (if ''Customers'' \<noteq> nm then Some nm else None)\<rparr>, w)"
  using assms
  by (simp add: resolve_sheet_def customers_target_def parse_int10_7 show_nat_digits Let_def)

lemma target_changes_none:
  "target_changes customers_target customers_target ''A1'' tu =
     tu\<lparr>tu_anchorA1 := None, tu_allowResize := None, tu_namedRange := None\<rparr>"
  by (simp add: target_changes_def customers_target_def upper_A1)

lemma writeDataToSheet_customers:
  assumes "w_sheets w = [\<lparr>sh_id = 7, sh_name = nm\<rparr>]"
  shows "writeDataToSheet n (stored_customers en lw) data w =
    check_and_write \<lparr>sh_id = 7, sh_name = nm\<rparr> customers_target ''A1''
      (no_updates\<lparr>tu_sheetName := (if ''Customers'' \<noteq> nm then Some nm else None)\<rparr>) data
      (clear_previous (stored_customers en lw) \<lparr>sh_id = 7, sh_name = nm\<rparr> w)"
proof -
  have tg: "ds_target (stored_customers en lw) = Some customers_target"
    by (simp add: stored_customers_def)
  have san: "sanitizeAnchorCell (tg_anchorA1 customers_target) = ''A1''"
    by (simp add: customers_target_def sanitize_A1)
  show ?thesis
    unfolding writeDataToSheet_def Let_def tg option.case normalize_customers_target san
      resolve_sheet_by_id [OF assms] prod.case target_changes_none
    by (simp add: no_updates_def)
qed

text \<open>
  C4. A table over the hard ceiling makes \<open>writeDataToSheet\<close> throw the sizing error, and
  nothing is written; but the range of the previous write has been cleared by then. The
  dataset below was last written to \<open>A1\<close>, two rows by one column, of sheet 7; three cells
  against a ceiling of two are refused after that range is cleared.
\<close>

theorem oversize_write_clears_previous_range:
  "(case writeDataToSheet 8 (stored_customers False (Some two_rows_written)) three_cells
           ((book ''Customers'' (stored_customers False (Some two_rows_written)))
              \<lparr>w_maxCellsHard := Some 2\<rparr>) of
      (r, w') \<Rightarrow>
        r = Inl ''Data exceeds hard limit of 2 cells (3 cells)'' \<and>
        w_events w' = [ClearContent 7 (Block ''A1'' 2 1)])"
proof -
  define w where "w = (book ''Customers'' (stored_customers False (Some two_rows_written)))
              \<lparr>w_maxCellsHard := Some 2\<rparr>"
  have sh: "w_sheets w = [\<lparr>sh_id = 7, sh_name = ''Customers''\<rparr>]"
    by (simp add: w_def book_def)
  have cl: "clear_previous (stored_customers False (Some two_rows_written))
        \<lparr>sh_id = 7, sh_name = ''Customers''\<rparr> w = emit (ClearContent 7 (Block ''A1'' 2 1)) w"
    by (simp add: clear_previous_def stored_customers_def two_rows_written_def show_nat_digits)
  have hard: "w_maxCellsHard w = Some 2" and ev: "w_events w = []"
    by (simp_all add: w_def book_def fresh_world_def)
  have tc: "totalCells three_cells = 3"
    by (simp add: totalCells_def three_cells_def)
  show ?thesis
    unfolding w_def [symmetric] writeDataToSheet_customers [OF sh] cl
    by (simp add: check_and_write_def hard tc over_limit_def limit_text_def show_nat_digits
        emit_def ev)
qed


lemma customers_listed: "pq_valid (parseQuery ''SELECT * FROM Customer'')"
  by code_simp

lemma is_anchor_A1: "is_anchor ''A1''"
  by code_simp

lemmas run_defs =
  runDataset_def getDatasetById_def store_job_def emit_def logAction_def updateJobProgress_def
  Let_def runQueryDataset_def write_and_finish_def convertEntitiesToSheetData_def entity_row_def
  writeDataToSheet_def resolve_sheet_def clear_previous_def check_and_write_def
  write_values_def target_changes_def totalCells_def over_limit_def limit_text_def
  resize_columns_def updates_or_null_def no_updates_def empty_write_def
  normalizeDatasetTarget_def or_else_def generateSchemaHash_def
  updateDataset_def merge_updates_def apply_target_updates_def validateDataset_def fail_job_def
  removeScheduleTrigger_def createScheduleTrigger_def addToLogQueue_def LOG_BATCH_SIZE_def
  LOG_BATCH_FLUSH_INTERVAL_def

lemmas run_facts =
  show_nat_digits parse_int10_7 sanitize_A1 anchor_row_A1 trim_Customers upper_A1
  customers_listed is_anchor_A1

lemmas example_defs =
  book_def fresh_world_def env_of_def two_customers_def customer_def stored_customers_def
  customers_dataset_def customers_target_def three_cells_def job_trail_def

text \<open>
  C5. A job stored as \<open>completed\<close> is stored again as \<open>failed\<close> when \<open>updateDataset\<close> throws
  after the run. Sheet 7 carries a blank name here: the write succeeds and reports the name
  of the sheet as a target update, the job is stored with status \<open>completed\<close> and progress
  100, \<open>updateDataset\<close> rejects the target (\<open>Target sheet name is required\<close>), and the
  \<open>catch\<close> stores the job as \<open>failed\<close> and throws; the cells stay written and the dataset
  keeps no record of the write.
\<close>

theorem job_completed_then_failed:
  "(case runDataset (env_of two_customers) ''a1'' (book '' '' (stored_customers False None)) of
      (r, w') \<Rightarrow>
        r = Inl ''Target sheet name is required'' \<and>
        job_trail w' = [(Running, 0), (Running, 10), (Running, 20), (Running, 50), (Running, 70),
                        (Running, 90), (Completed, 100), (Failed, 100)] \<and>
        filter is_cell_mutation (w_events w')
          = [SetValues 7 (Block ''A1'' 3 1) three_cells] \<and>
        map_option ds_lastWrite (getDatasetById ''a1'' w') = Some None)"
  by (simp add: run_defs run_facts example_defs)

subsection \<open>The scheduler: lock and orphaned triggers\<close>

























lemma job_trail_append:
  assumes "w_events w' = w_events w @ evs" and "list_all (logger_event q) evs"
  shows "job_trail w' = job_trail w"
proof -
  have "concat (map (\<lambda>e. case e of JobStored _ st p \<Rightarrow> [(st, p)] | _ \<Rightarrow> []) evs) = []"
    using assms(2) by (induction evs) (auto simp: logger_event_def split: event.splits)
  then show ?thesis
    by (simp add: job_trail_def assms(1))
qed

lemma initializeLogsSheet_events:
  "\<exists>evs. w_events (snd (initializeLogsSheet w)) = w_events w @ evs \<and> list_all (logger_event q) evs"
  by (simp add: initializeLogsSheet_def Let_def emit_def logger_event_def split: option.splits)

lemma rotateLogsSheet_events:
  "\<exists>evs. w_events (rotateLogsSheet s w) = w_events w @ evs \<and> list_all (logger_event q) evs"
proof -
  define archiveName where "archiveName = LOGS_SHEET_NAME @ ''_Archive_'' @ timestamp (w_now w)"
  define w1 where "w1 = w\<lparr>w_sheets :=
      map (\<lambda>s'. if sh_id s' = sh_id s then s'\<lparr>sh_name := archiveName\<rparr> else s') (w_sheets w)\<rparr>"
  have eq: "rotateLogsSheet s w =
      (if getSheetByName archiveName w \<noteq> None
       then emit (ConsoleError ''Error rotating logs sheet:'') w
       else snd (initializeLogsSheet w1))"
    unfolding rotateLogsSheet_def Let_def archiveName_def w1_def ..
  have "w_events w1 = w_events w"
    by (simp add: w1_def)
  then show ?thesis
    using initializeLogsSheet_events [of w1 q] unfolding eq
    by (simp add: emit_def logger_event_def)
qed

lemma flushLogQueue_events:
  "\<exists>evs. w_events (flushLogQueue w) = w_events w @ evs
     \<and> list_all (logger_event (w_logQueue w)) evs"
proof (cases "w_logQueue w = []")
  case True
  then show ?thesis
    by (simp add: flushLogQueue_def)
next
  case False
  define w1 where "w1 = snd (initializeLogsSheet w)"
  define w2 where "w2 = (if w_logRows w1 > LOG_ROTATION_ROWS
      then rotateLogsSheet (fst (initializeLogsSheet w)) w1 else w1)"
  obtain e1 where e1: "w_events w1 = w_events w @ e1" "list_all (logger_event (w_logQueue w)) e1"
    using initializeLogsSheet_events [of w "w_logQueue w"] unfolding w1_def by blast
  obtain e2 where e2: "w_events w2 = w_events w1 @ e2" "list_all (logger_event (w_logQueue w)) e2"
    using rotateLogsSheet_events [of "fst (initializeLogsSheet w)" w1 "w_logQueue w"]
    unfolding w2_def by (cases "w_logRows w1 > LOG_ROTATION_ROWS") auto
  have q2: "w_logQueue w2 = w_logQueue w"
    by (simp add: w2_def w1_def rotateLogsSheet_frame initializeLogsSheet_frame)
  have ev2: "w_events w2 = w_events w @ (e1 @ e2)"
    by (simp add: e1 e2)
  have "\<exists>e3. w_events (flushLogQueue w) = w_events w2 @ e3
      \<and> list_all (logger_event (w_logQueue w)) e3"
    using False unfolding flushLogQueue_def Let_def w1_def [symmetric] w2_def [symmetric]
    by (simp add: emit_def logger_event_def q2 split: option.splits)
  then obtain e3 where e3: "w_events (flushLogQueue w) = w_events w2 @ e3"
    "list_all (logger_event (w_logQueue w)) e3"
    by blast
  have "w_events (flushLogQueue w) = w_events w @ (e1 @ e2 @ e3)"
    by (simp add: e3 ev2)
  moreover have "list_all (logger_event (w_logQueue w)) (e1 @ e2 @ e3)"
    using e1 e2 e3 by simp
  ultimately show ?thesis
    by blast
qed

lemma logAction_events:
  "\<exists>evs. w_events (logAction a w) = w_events w @ evs
     \<and> list_all (logger_event (w_logQueue w @ [a])) evs"
proof -
  define w1 where "w1 = addToLogQueue a (emit (Log a) w)"
  have ev1: "w_events w1 = w_events w @ [Log a]" and q1: "w_logQueue w1 = w_logQueue w @ [a]"
    by (simp_all add: w1_def addToLogQueue_def emit_def Let_def)
  obtain e2 where e2: "w_events (flushLogQueue w1) = w_events w1 @ e2"
    "list_all (logger_event (w_logQueue w1)) e2"
    using flushLogQueue_events [of w1] by blast
  have cases: "logAction a w = w1 \<or> logAction a w = flushLogQueue w1"
    by (simp add: logAction_def Let_def w1_def)
  then show ?thesis
  proof
    assume "logAction a w = w1"
    then have "w_events (logAction a w) = w_events w @ [Log a]"
      by (simp add: ev1)
    moreover have "list_all (logger_event (w_logQueue w @ [a])) [Log a]"
      by (simp add: logger_event_def)
    ultimately show ?thesis
      by blast
  next
    assume "logAction a w = flushLogQueue w1"
    then have "w_events (logAction a w) = w_events w @ (Log a # e2)"
      by (simp add: e2 ev1)
    moreover have "list_all (logger_event (w_logQueue w @ [a])) (Log a # e2)"
      using e2(2) by (simp add: logger_event_def q1)
    ultimately show ?thesis
      by blast
  qed
qed







subsection \<open>Orphaned triggers\<close>

lemma scheduled_run_orphan:
  assumes "triggerId \<noteq> ''''" and "w_dataset_of w triggerId = Some datasetId"
    and "datasetId \<noteq> ''''"
    and "getDatasetById datasetId w = None
         \<or> (\<exists>ds. getDatasetById datasetId w = Some ds
                \<and> (case ds_schedule ds of None \<Rightarrow> True | Some s \<Rightarrow> \<not> sc_enabled s))"
  shows "scheduledDatasetRun env (Some triggerId) w =
    snd (removeScheduleTrigger datasetId
      (if getDatasetById datasetId w = None then emit (ConsoleError ''Dataset not found:'') w
       else w))"
  using assms by (auto simp: scheduledDatasetRun_def)

lemma removeScheduleTrigger_mapped:
  assumes "w_trigger_of w d = Some t" and "t \<noteq> ''''"
  shows "snd (removeScheduleTrigger d w) =
    logAction ''remove_schedule_trigger''
      ((if t \<in> set (w_triggers w)
        then emit (DeleteTrigger t) (w\<lparr>w_triggers := filter (\<lambda>x. x \<noteq> t) (w_triggers w)\<rparr>)
        else w)\<lparr>w_trigger_of := (w_trigger_of w)(d := None),
                 w_dataset_of := (w_dataset_of w)(t := None)\<rparr>)"
  using assms by (simp add: removeScheduleTrigger_def Let_def emit_def)

lemma removeScheduleTrigger_unmapped:
  assumes "w_trigger_of w d = None"
  shows "snd (removeScheduleTrigger d w) = w"
  using assms by (simp add: removeScheduleTrigger_def)

lemma job_trail_logAction: "job_trail (logAction a w) = job_trail w"
  using logAction_events [of a w] job_trail_append by blast

lemma removeScheduleTrigger_no_run:
  "job_trail (snd (removeScheduleTrigger d w)) = job_trail w
   \<and> w_jobs (snd (removeScheduleTrigger d w)) = w_jobs w
   \<and> w_datasets (snd (removeScheduleTrigger d w)) = w_datasets w"
proof (cases "w_trigger_of w d")
  case None
  then show ?thesis
    by (simp add: removeScheduleTrigger_def)
next
  case (Some t)
  show ?thesis
  proof (cases "t = ''''")
    case True
    with Some show ?thesis
      by (simp add: removeScheduleTrigger_def)
  next
    case False
    define w1 where "w1 = (if t \<in> set (w_triggers w)
        then emit (DeleteTrigger t) (w\<lparr>w_triggers := filter (\<lambda>x. x \<noteq> t) (w_triggers w)\<rparr>)
        else w)\<lparr>w_trigger_of := (w_trigger_of w)(d := None),
                 w_dataset_of := (w_dataset_of w)(t := None)\<rparr>"
    have eq: "snd (removeScheduleTrigger d w) = logAction ''remove_schedule_trigger'' w1"
      unfolding w1_def by (rule removeScheduleTrigger_mapped [OF Some False])
    have "job_trail w1 = job_trail w" "w_jobs w1 = w_jobs w" "w_datasets w1 = w_datasets w"
      by (simp_all add: w1_def job_trail_def emit_def)
    then show ?thesis
      unfolding eq by (simp add: job_trail_logAction logAction_frame)
  qed
qed

text \<open>
  When the dataset a trigger is mapped to no longer exists, or its schedule is missing or
  disabled, \<open>scheduledDatasetRun\<close> runs nothing: no job record is written, and jobs and
  datasets are as before. It calls \<open>removeScheduleTrigger\<close> with the dataset id, which goes
  by the mapping \<open>QBO_Dataset_<id>\<close>: when that mapping names the trigger that fired, the
  trigger and both mappings are gone afterwards; when the dataset has no such mapping,
  triggers and mappings are left as they were.
\<close>

lemma orphaned_trigger_cleanup:
  assumes "triggerId \<noteq> ''''" and "w_dataset_of w triggerId = Some datasetId"
    and "datasetId \<noteq> ''''"
    and "getDatasetById datasetId w = None
         \<or> (\<exists>ds. getDatasetById datasetId w = Some ds
                \<and> (case ds_schedule ds of None \<Rightarrow> True | Some s \<Rightarrow> \<not> sc_enabled s))"
  shows "job_trail (scheduledDatasetRun env (Some triggerId) w) = job_trail w
       \<and> w_jobs (scheduledDatasetRun env (Some triggerId) w) = w_jobs w
       \<and> w_datasets (scheduledDatasetRun env (Some triggerId) w) = w_datasets w
       \<and> (w_trigger_of w datasetId = Some triggerId \<longrightarrow>
            triggerId \<notin> set (w_triggers (scheduledDatasetRun env (Some triggerId) w))
            \<and> w_trigger_of (scheduledDatasetRun env (Some triggerId) w) datasetId = None
            \<and> w_dataset_of (scheduledDatasetRun env (Some triggerId) w) triggerId = None)
       \<and> (w_trigger_of w datasetId = None \<longrightarrow>
            w_triggers (scheduledDatasetRun env (Some triggerId) w) = w_triggers w
            \<and> w_trigger_of (scheduledDatasetRun env (Some triggerId) w) = w_trigger_of w
            \<and> w_dataset_of (scheduledDatasetRun env (Some triggerId) w) = w_dataset_of w)"
proof -
  define w0 where "w0 = (if getDatasetById datasetId w = None
      then emit (ConsoleError ''Dataset not found:'') w else w)"
  have eq: "scheduledDatasetRun env (Some triggerId) w = snd (removeScheduleTrigger datasetId w0)"
    unfolding w0_def by (rule scheduled_run_orphan [OF assms])
  have frame: "job_trail w0 = job_trail w" "w_jobs w0 = w_jobs w"
    "w_datasets w0 = w_datasets w" "w_triggers w0 = w_triggers w"
    "w_trigger_of w0 = w_trigger_of w" "w_dataset_of w0 = w_dataset_of w"
    by (simp_all add: w0_def emit_def job_trail_def)
  have mapped: "triggerId \<notin> set (w_triggers (snd (removeScheduleTrigger datasetId w0)))
      \<and> w_trigger_of (snd (removeScheduleTrigger datasetId w0)) datasetId = None
      \<and> w_dataset_of (snd (removeScheduleTrigger datasetId w0)) triggerId = None"
    if "w_trigger_of w datasetId = Some triggerId"
  proof -
    from that have "w_trigger_of w0 datasetId = Some triggerId"
      by (simp add: frame)
    from removeScheduleTrigger_mapped [OF this assms(1)] show ?thesis
      by (simp add: logAction_frame emit_def)
  qed
  have unmapped: "snd (removeScheduleTrigger datasetId w0) = w0"
    if "w_trigger_of w datasetId = None"
    using that by (simp add: removeScheduleTrigger_unmapped frame)
  show ?thesis
    unfolding eq using removeScheduleTrigger_no_run [of datasetId w0] mapped unmapped
    by (simp add: frame)
qed

text \<open>
  The mappings that \<open>createScheduleTrigger\<close> and \<open>removeScheduleTrigger\<close> keep agree, and
  the trigger that fires is then the one the clean-up removes.
\<close>

lemma pairing_fresh: "trigger_pairing fresh_world"
  by (simp add: trigger_pairing_def fresh_world_def)

lemma removeScheduleTrigger_maps:
  "w_trigger_of (snd (removeScheduleTrigger d w)) =
     (case w_trigger_of w d of
        None \<Rightarrow> w_trigger_of w
      | Some t \<Rightarrow> if t = '''' then w_trigger_of w else (w_trigger_of w)(d := None))"
  "w_dataset_of (snd (removeScheduleTrigger d w)) =
     (case w_trigger_of w d of
        None \<Rightarrow> w_dataset_of w
      | Some t \<Rightarrow> if t = '''' then w_dataset_of w else (w_dataset_of w)(t := None))"
  by (simp_all add: removeScheduleTrigger_def Let_def logAction_frame emit_def
      split: option.splits)

lemma pairing_removeScheduleTrigger:
  assumes "trigger_pairing w"
  shows "trigger_pairing (snd (removeScheduleTrigger d w))"
proof (cases "w_trigger_of w d")
  case None
  then show ?thesis
    using assms by (simp add: trigger_pairing_def removeScheduleTrigger_maps)
next
  case (Some t)
  show ?thesis
  proof (cases "t = ''''")
    case True
    with Some show ?thesis
      using assms by (simp add: trigger_pairing_def removeScheduleTrigger_maps)
  next
    case False
    have "t' \<noteq> '''' \<and> ((w_trigger_of w)(d := None)) d' = Some t'"
      if a: "((w_dataset_of w)(t := None)) t' = Some d'" for t' d'
    proof -
      from a have ne: "t' \<noteq> t" and r: "w_dataset_of w t' = Some d'"
        by (auto split: if_splits)
      from r assms have f: "t' \<noteq> ''''" "w_trigger_of w d' = Some t'"
        by (simp_all add: trigger_pairing_def)
      from f(2) Some ne have "d' \<noteq> d" by auto
      with f show ?thesis by simp
    qed
    with Some False show ?thesis
      by (simp add: trigger_pairing_def removeScheduleTrigger_maps)
  qed
qed

lemma removeScheduleTrigger_unpaired:
  assumes "trigger_pairing w"
  shows "w_dataset_of (snd (removeScheduleTrigger d w)) t \<noteq> Some d"
proof
  assume a: "w_dataset_of (snd (removeScheduleTrigger d w)) t = Some d"
  from pairing_removeScheduleTrigger [OF assms, of d] a
  have t: "t \<noteq> ''''" and f: "w_trigger_of (snd (removeScheduleTrigger d w)) d = Some t"
    by (simp_all add: trigger_pairing_def)
  from f t show False
    by (cases "w_trigger_of w d") (auto simp: removeScheduleTrigger_maps split: if_splits)
qed

lemma createScheduleTrigger_maps:
  "snd (createScheduleTrigger tid d sched w) = w
   \<or> snd (createScheduleTrigger tid d sched w)
       = logAction ''create_schedule_trigger_error'' (snd (removeScheduleTrigger d w))
   \<or> w_trigger_of (snd (createScheduleTrigger tid d sched w))
         = (w_trigger_of (snd (removeScheduleTrigger d w)))(d \<mapsto> tid)
       \<and> w_dataset_of (snd (createScheduleTrigger tid d sched w))
         = (w_dataset_of (snd (removeScheduleTrigger d w)))(tid \<mapsto> d)"
  by (cases sched) (simp_all add: createScheduleTrigger_def Let_def logAction_frame emit_def)

lemma pairing_createScheduleTrigger:
  assumes "trigger_pairing w" and "tid \<noteq> ''''"
  shows "trigger_pairing (snd (createScheduleTrigger tid d sched w))"
proof -
  define w1 where "w1 = snd (removeScheduleTrigger d w)"
  have p1: "trigger_pairing w1"
    unfolding w1_def by (rule pairing_removeScheduleTrigger [OF assms(1)])
  have gone: "w_dataset_of w1 t \<noteq> Some d" for t
    unfolding w1_def by (rule removeScheduleTrigger_unpaired [OF assms(1)])
  from createScheduleTrigger_maps [of tid d sched w]
  consider (same) "snd (createScheduleTrigger tid d sched w) = w"
    | (failed) "snd (createScheduleTrigger tid d sched w)
        = logAction ''create_schedule_trigger_error'' w1"
    | (made) "w_trigger_of (snd (createScheduleTrigger tid d sched w))
          = (w_trigger_of w1)(d \<mapsto> tid)"
        "w_dataset_of (snd (createScheduleTrigger tid d sched w))
          = (w_dataset_of w1)(tid \<mapsto> d)"
    unfolding w1_def by blast
  then show ?thesis
  proof cases
    case same
    then show ?thesis using assms(1) by simp
  next
    case failed
    then show ?thesis using p1 by (simp add: trigger_pairing_def logAction_frame)
  next
    case made
    have "t' \<noteq> '''' \<and> ((w_trigger_of w1)(d \<mapsto> tid)) d' = Some t'"
      if a: "((w_dataset_of w1)(tid \<mapsto> d)) t' = Some d'" for t' d'
    proof (cases "t' = tid")
      case True
      with a assms(2) show ?thesis by simp
    next
      case False
      with a have r: "w_dataset_of w1 t' = Some d'" by simp
      with p1 have f: "t' \<noteq> ''''" "w_trigger_of w1 d' = Some t'"
        by (simp_all add: trigger_pairing_def)
      from r gone [of t'] have "d' \<noteq> d" by auto
      with f show ?thesis by simp
    qed
    then show ?thesis
      by (simp add: trigger_pairing_def made)
  qed
qed

lemma paired_trigger_removed:
  assumes "trigger_pairing w" and "w_dataset_of w triggerId = Some datasetId"
    and "datasetId \<noteq> ''''"
    and "getDatasetById datasetId w = None
         \<or> (\<exists>ds. getDatasetById datasetId w = Some ds
                \<and> (case ds_schedule ds of None \<Rightarrow> True | Some s \<Rightarrow> \<not> sc_enabled s))"
  shows "triggerId \<notin> set (w_triggers (scheduledDatasetRun env (Some triggerId) w))
       \<and> w_trigger_of (scheduledDatasetRun env (Some triggerId) w) datasetId = None
       \<and> w_dataset_of (scheduledDatasetRun env (Some triggerId) w) triggerId = None
       \<and> job_trail (scheduledDatasetRun env (Some triggerId) w) = job_trail w"
proof -
  from assms(1,2) have t: "triggerId \<noteq> ''''" and f: "w_trigger_of w datasetId = Some triggerId"
    by (simp_all add: trigger_pairing_def)
  from orphaned_trigger_cleanup [OF t assms(2,3,4), of env] f show ?thesis
    by simp
qed

text \<open>
  C7. A trigger fires whose dataset has its schedule switched off, and the property
  \<open>QBO_Dataset_a1\<close> is not there, only \<open>trigger_t1\<close>. \<open>scheduledDatasetRun\<close> runs nothing,
  and \<open>removeScheduleTrigger\<close>, which looks the trigger up by the dataset id, finds none and
  returns: the trigger that fired is still installed and still mapped to the dataset.
\<close>

theorem fired_trigger_left_in_place:
  "w_dataset_of (with_reverse_mapping (book ''Customers'' (stored_customers False None))) ''t1''
     = Some ''a1''
   \<and> map_option ds_schedule
        (getDatasetById ''a1'' (with_reverse_mapping (book ''Customers'' (stored_customers False None))))
     = Some (Some \<lparr>sc_enabled = False, sc_freq = ''daily'', sc_timeOfDay = ''09:00''\<rparr>)
   \<and> ''t1'' \<in> set (w_triggers (scheduledDatasetRun (env_of two_customers) (Some ''t1'')
        (with_reverse_mapping (book ''Customers'' (stored_customers False None)))))
   \<and> w_dataset_of (scheduledDatasetRun (env_of two_customers) (Some ''t1'')
        (with_reverse_mapping (book ''Customers'' (stored_customers False None)))) ''t1''
     = Some ''a1''"
  by (simp add: scheduledDatasetRun_def removeScheduleTrigger_def with_reverse_mapping_def
      book_def fresh_world_def getDatasetById_def stored_customers_def)

end
